theory Spec2Isabelle
  imports Complex_Main
begin

section \<open>The detection viewer of AlertsPanel.tsx\<close>

text \<open>
  The component \<^verbatim>\<open>DetectionViewer\<close> consumes a server-sent-event stream of detection and
  frame messages, pairs them by frame identifier, fetches the frame image and keeps the
  latest completed frame per stream. The embedding below follows the source function by
  function.

  JavaScript numbers that carry measurements (confidence, box coordinates, image sizes)
  are modelled as \<^typ>\<open>real\<close>: exact arithmetic, without IEEE rounding. The result of
  \<^verbatim>\<open>new Date(s).getTime()\<close> is an \<^typ>\<open>int option\<close>: a number of milliseconds, or
  \<open>None\<close> for \<^verbatim>\<open>NaN\<close>. Date parsing itself is a built-in of the host language and is a
  parameter of the model.
\<close>

subsection \<open>Data\<close>

text \<open>The \<^verbatim>\<open>data\<close> part of a \<^verbatim>\<open>DetectionEvent\<close> (fields \<^verbatim>\<open>id\<close> and \<^verbatim>\<open>timestamp\<close> are
  prefixed, the other names are the wire names).\<close>

record detection_data =
  det_id :: int
  frame_id :: string
  det_timestamp :: string
  label :: string
  class_id :: int
  confidence :: real
  bbox :: "real \<times> real \<times> real \<times> real"

text \<open>The \<^verbatim>\<open>data\<close> part of a \<^verbatim>\<open>FrameEvent\<close>.\<close>

record frame_data =
  fr_id :: string
  fr_timestamp :: string
  ingest_timestamp :: string
  update_timestamp :: string
  stream_id :: string
  fps :: real
  fr_scale :: real

text \<open>An element of \<^verbatim>\<open>FrameDetections.detections\<close>: the detection without its frame id.\<close>

record stored_detection =
  sd_id :: int
  sd_label :: string
  sd_class_id :: int
  sd_confidence :: real
  sd_bbox :: "real \<times> real \<times> real \<times> real"
  sd_timestamp :: string

record FrameDetections =
  frameId :: string
  detections :: "stored_detection list"
  labels :: "string \<rightharpoonup> real"
  detectionCount :: nat

text \<open>
  A \<^verbatim>\<open>FrameDetections\<close> object is shared by reference between the pending buffer, the
  suspended frame handlers and the cards, and it is mutated in place. The objects
  therefore live in a store (a list, the address is the index), and the other structures
  hold addresses.
\<close>

type_synonym addr = nat

record FrameData =
  fd_frame :: frame_data
  imageUrl :: "string option"
  fd_detections :: addr

record DetectionCard =
  frameData :: FrameData
  messageTimestamp :: "int option"

text \<open>A call of \<^verbatim>\<open>handleFrameEvent\<close> suspended at \<^verbatim>\<open>await fetchImage(frameId)\<close>, with the
  local variables it has computed so far.\<close>

record pending_fetch =
  pf_event :: frame_data
  pf_messageTimestamp :: "int option"
  pf_frameDetections :: addr

datatype readyState = CONNECTING | OPEN | CLOSED

text \<open>An \<^verbatim>\<open>EventSource\<close> created by \<^verbatim>\<open>connect\<close>: its ready state, and the value of
  \<^verbatim>\<open>isLive\<close> captured by the closures that were attached to it.\<close>

record event_source =
  es_readyState :: readyState
  es_isLive :: bool

text \<open>A callback scheduled by \<^verbatim>\<open>setTimeout\<close> in \<^verbatim>\<open>onerror\<close>: the delay in milliseconds and
  the captured \<^verbatim>\<open>isLive\<close>.\<close>

record reconnect_timer =
  tm_delay :: nat
  tm_isLive :: bool

text \<open>The parsed JSON message. \<open>msg_type\<close> is empty when the value has no truthy
  \<^verbatim>\<open>type\<close> (this covers \<^verbatim>\<open>null\<close> and primitives); \<open>msg_error\<close> is \<open>None\<close> when there is no
  \<^verbatim>\<open>error\<close> property and empty when the property is falsy.\<close>

datatype msg_data = NoData | DetectionData detection_data | FrameEventData frame_data

record sse_message =
  msg_type :: string
  msg_error :: "string option"
  msg_data :: msg_data

datatype payload = Malformed | Parsed sse_message

datatype fetch_outcome =
    ImageLoaded string
  | ResponseNotOk string
  | BlobReadError
  | FetchThrew

text \<open>What the component is given from outside: the \<^verbatim>\<open>alertsEnabled\<close> property and the
  date parser of the host.\<close>

record env =
  getTime :: "string \<Rightarrow> int option"
  alertsEnabled :: bool

text \<open>The hooks of the component (\<^verbatim>\<open>useState\<close> and \<^verbatim>\<open>useRef\<close>), the store, the suspended
  frame handlers, the pending timers, and the two output channels (toasts, console).
  \<open>detections_map\<close> is the state variable \<^verbatim>\<open>detections\<close>.\<close>

record state =
  status :: string
  isLive :: bool
  detections_map :: "string \<rightharpoonup> DetectionCard"
  pendingDetections :: "string \<rightharpoonup> addr"
  pendingFrames :: "string \<rightharpoonup> frame_data"
  knownStreamIds :: "string set"
  eventSource :: "event_source option"
  heap :: "FrameDetections list"
  fetches :: "pending_fetch list"
  timers :: "reconnect_timer list"
  toasts :: "string list"
  console :: "string list"

definition initial :: state where
  "initial = \<lparr> status = ''Connecting...'', isLive = True, detections_map = Map.empty,
     pendingDetections = Map.empty, pendingFrames = Map.empty, knownStreamIds = {},
     eventSource = None, heap = [], fetches = [], timers = [], toasts = [], console = [] \<rparr>"

subsection \<open>Comparison of timestamps\<close>

text \<open>\<^verbatim>\<open>a <= b\<close> on numbers: false as soon as one side is \<^verbatim>\<open>NaN\<close>.\<close>

fun js_le :: "int option \<Rightarrow> int option \<Rightarrow> bool" where
  "js_le (Some a) (Some b) = (a \<le> b)"
| "js_le _ _ = False"

subsection \<open>Score normalisation and image fetch\<close>

definition normalizeScore :: "real \<Rightarrow> real" where
  "normalizeScore c = (if c > 1 then c / 100 else c)"

text \<open>\<^verbatim>\<open>fetchImage\<close>: the value it resolves to and what it writes to the console, for each
  way the request can end.\<close>

fun fetchImage :: "string \<Rightarrow> fetch_outcome \<Rightarrow> string option \<times> string list" where
  "fetchImage imageId (ImageLoaded url) = (Some url, [])"
| "fetchImage imageId (ResponseNotOk statusText) =
     (None, [''Failed to fetch image '' @ imageId @ '': '' @ statusText])"
| "fetchImage imageId BlobReadError = (None, [''Error reading image blob for '' @ imageId])"
| "fetchImage imageId FetchThrew = (None, [''Error fetching image '' @ imageId @ '':''])"

subsection \<open>The two event handlers\<close>

definition emptyFrameDetections :: "string \<Rightarrow> FrameDetections" where
  "emptyFrameDetections f =
     \<lparr> frameId = f, detections = [], labels = Map.empty, detectionCount = 0 \<rparr>"

text \<open>Lines 291 to 308 of \<^verbatim>\<open>handleDetectionEvent\<close>: push the detection, raise the label's
  score, refresh the count. \<^verbatim>\<open>!currentScore\<close> holds for a missing entry and for the
  score \<open>0\<close>.\<close>

definition addDetection :: "FrameDetections \<Rightarrow> detection_data \<Rightarrow> FrameDetections" where
  "addDetection fds d =
     (let dets = detections fds @
            [\<lparr> sd_id = det_id d, sd_label = label d, sd_class_id = class_id d,
               sd_confidence = confidence d, sd_bbox = bbox d,
               sd_timestamp = det_timestamp d \<rparr>];
          normalizedScore = normalizeScore (confidence d);
          lbls = (case labels fds (label d) of
                    None \<Rightarrow> (labels fds)(label d \<mapsto> normalizedScore)
                  | Some currentScore \<Rightarrow>
                      if currentScore = 0 \<or> normalizedScore > currentScore
                      then (labels fds)(label d \<mapsto> normalizedScore)
                      else labels fds)
      in fds\<lparr> detections := dets, labels := lbls, detectionCount := length dets \<rparr>)"

text \<open>\<^verbatim>\<open>handleFrameEvent\<close> up to its \<^verbatim>\<open>await\<close>. Without a buffered aggregate the handler
  builds an empty one, whose count is zero. A message without \<^verbatim>\<open>data\<close> makes the
  destructuring throw, which the handler catches and logs; data of the other shape has
  no \<^verbatim>\<open>stream_id\<close>.\<close>

definition handleFrameEvent :: "env \<Rightarrow> msg_data \<Rightarrow> state \<Rightarrow> state" where
  "handleFrameEvent e ev s =
     (case ev of
        NoData \<Rightarrow> s\<lparr> console := console s @ [''Error handling frame event:''] \<rparr>
      | DetectionData _ \<Rightarrow> s
      | FrameEventData fd \<Rightarrow>
          if stream_id fd = [] \<or> fr_id fd = [] then s
          else
            (case pendingDetections s (fr_id fd) of
               None \<Rightarrow> s\<lparr> pendingFrames := (pendingFrames s)(fr_id fd \<mapsto> fd) \<rparr>
             | Some a \<Rightarrow>
                 if detectionCount (heap s ! a) = 0
                 then s\<lparr> pendingFrames := (pendingFrames s)(fr_id fd \<mapsto> fd) \<rparr>
                 else s\<lparr> fetches := fetches s @
                        [\<lparr> pf_event = fd,
                           pf_messageTimestamp = getTime e (fr_timestamp fd),
                           pf_frameDetections = a \<rparr>] \<rparr>))"

text \<open>Lines 279 to 308 of \<^verbatim>\<open>handleDetectionEvent\<close>: get or create the aggregate of
  the frame, then add the detection to it.\<close>

definition bufferDetection :: "detection_data \<Rightarrow> state \<Rightarrow> state" where
  "bufferDetection d s =
     (let (a, s1) = (case pendingDetections s (frame_id d) of
                       Some a \<Rightarrow> (a, s)
                     | None \<Rightarrow>
                         (length (heap s),
                          s\<lparr> heap := heap s @ [emptyFrameDetections (frame_id d)],
                             pendingDetections :=
                               (pendingDetections s)(frame_id d \<mapsto> length (heap s)) \<rparr>))
      in s1\<lparr> heap := (heap s1)[a := addDetection (heap s1 ! a) d] \<rparr>)"

text \<open>\<^verbatim>\<open>handleDetectionEvent\<close>. The call of \<^verbatim>\<open>handleFrameEvent\<close> for a waiting frame runs
  up to its \<^verbatim>\<open>await\<close> before the frame is removed from the pending frames.\<close>

definition handleDetectionEvent :: "env \<Rightarrow> msg_data \<Rightarrow> state \<Rightarrow> state" where
  "handleDetectionEvent e ev s =
     (case ev of
        NoData \<Rightarrow> s\<lparr> console := console s @ [''Error handling detection event:''] \<rparr>
      | FrameEventData _ \<Rightarrow> s
      | DetectionData d \<Rightarrow>
          if frame_id d = [] then s
          else
            (let s2 = bufferDetection d s
             in case pendingFrames s2 (frame_id d) of
                  None \<Rightarrow> s2
                | Some pendingFrame \<Rightarrow>
                    (let s3 = handleFrameEvent e (FrameEventData pendingFrame) s2
                     in s3\<lparr> pendingFrames := (pendingFrames s3)(frame_id d := None) \<rparr>)))"

text \<open>
  The rest of \<^verbatim>\<open>handleFrameEvent\<close>, run when the image request of a suspended call has
  ended: the lines after the \<^verbatim>\<open>await\<close> and the updater passed to \<^verbatim>\<open>setDetections\<close>, as one
  step. \<^verbatim>\<open>imageUrl || undefined\<close> turns \<^verbatim>\<open>null\<close> and the empty string into no image.
\<close>

definition orUndefined :: "string option \<Rightarrow> string option" where
  "orUndefined url = (case url of None \<Rightarrow> None | Some u \<Rightarrow> if u = [] then None else Some u)"

text \<open>Line 362: \<^verbatim>\<open>existing && messageTimestamp <= existing.messageTimestamp\<close>.\<close>

definition isStale :: "int option \<Rightarrow> DetectionCard option \<Rightarrow> bool" where
  "isStale ts existing =
     (case existing of None \<Rightarrow> False | Some c \<Rightarrow> js_le ts (messageTimestamp c))"

text \<open>Lines 367 to 377: the card built from the suspended call and the fetched image.\<close>

definition makeCard :: "pending_fetch \<Rightarrow> string option \<Rightarrow> DetectionCard" where
  "makeCard p url =
     \<lparr> frameData = \<lparr> fd_frame = pf_event p, imageUrl = orUndefined url,
                     fd_detections = pf_frameDetections p \<rparr>,
       messageTimestamp = pf_messageTimestamp p \<rparr>"

definition completeFrame :: "env \<Rightarrow> pending_fetch \<Rightarrow> fetch_outcome \<Rightarrow> state \<Rightarrow> state" where
  "completeFrame e p out s =
     (let fd = pf_event p;
          (url, logged) = fetchImage (fr_id fd) out;
          s1 = s\<lparr> console := console s @ logged \<rparr>;
          isNewStreamId = (stream_id fd \<notin> knownStreamIds s1);
          wasStreamIdNew = (detections_map s1 (stream_id fd) = None)
      in if isStale (pf_messageTimestamp p) (detections_map s1 (stream_id fd)) then s1
         else
           (let s2 = s1\<lparr> detections_map :=
                           (detections_map s1)(stream_id fd \<mapsto> makeCard p url),
                         pendingDetections := (pendingDetections s1)(fr_id fd := None) \<rparr>
            in if wasStreamIdNew \<and> isNewStreamId \<and> alertsEnabled e
               then s2\<lparr> knownStreamIds := insert (stream_id fd) (knownStreamIds s2),
                        toasts := toasts s2 @ [''New stream: '' @ stream_id fd] \<rparr>
               else s2))"

subsection \<open>The connection\<close>

text \<open>\<^verbatim>\<open>connect\<close>, as defined in a render whose \<^verbatim>\<open>isLive\<close> is \<open>live\<close>. Closing an
  \<^verbatim>\<open>EventSource\<close> and clearing the reference leaves no object to deliver events.\<close>

definition connect :: "bool \<Rightarrow> state \<Rightarrow> state" where
  "connect live s =
     (let s1 = s\<lparr> status := ''Connecting...'' \<rparr>;
          s2 = (case eventSource s1 of None \<Rightarrow> s1 | Some _ \<Rightarrow> s1\<lparr> eventSource := None \<rparr>)
      in if \<not> live then s2\<lparr> status := ''Paused'' \<rparr>
         else s2\<lparr> eventSource := Some \<lparr> es_readyState = CONNECTING, es_isLive = live \<rparr> \<rparr>)"

definition onopen :: "state \<Rightarrow> state" where
  "onopen s = s\<lparr> status := ''Connected'' \<rparr>"

definition onmessage :: "env \<Rightarrow> payload \<Rightarrow> state \<Rightarrow> state" where
  "onmessage e raw s =
     (case raw of
        Malformed \<Rightarrow> s\<lparr> console := console s @ [''Error parsing message:''] \<rparr>
      | Parsed m \<Rightarrow>
          if msg_type m = [] then s
          else if (case msg_error m of None \<Rightarrow> False | Some err \<Rightarrow> err \<noteq> [])
          then s\<lparr> console := console s @ [''Server error: '' @ the (msg_error m)],
                  status := ''Error: '' @ the (msg_error m) \<rparr>
          else if msg_type m = ''detection'' then handleDetectionEvent e (msg_data m) s
          else if msg_type m = ''frame'' then handleFrameEvent e (msg_data m) s
          else s\<lparr> console := console s @ [''Unknown event type: '' @ msg_type m] \<rparr>)"

text \<open>\<^verbatim>\<open>onerror\<close> of an event source whose closures captured \<open>live\<close>: log, set the status,
  schedule the callback one second later.\<close>

definition onerror :: "bool \<Rightarrow> state \<Rightarrow> state" where
  "onerror live s =
     s\<lparr> console := console s @ [''SSE error:''],
        status := ''Connection error - reconnecting...'',
        timers := timers s @ [\<lparr> tm_delay = 1000, tm_isLive = live \<rparr>] \<rparr>"

text \<open>The callback given to \<^verbatim>\<open>setTimeout\<close>.\<close>

definition reconnectCallback :: "bool \<Rightarrow> state \<Rightarrow> state" where
  "reconnectCallback live s =
     (case eventSource s of
        None \<Rightarrow> s
      | Some es \<Rightarrow>
          if es_readyState es = CLOSED then (if live then connect live s else s) else s)"

text \<open>The effect on \<^verbatim>\<open>[isLive]\<close>: its cleanup, and its body.\<close>

definition effectCleanup :: "state \<Rightarrow> state" where
  "effectCleanup s = (case eventSource s of None \<Rightarrow> s | Some _ \<Rightarrow> s\<lparr> eventSource := None \<rparr>)"

definition effectBody :: "state \<Rightarrow> state" where
  "effectBody s =
     (if isLive s then connect (isLive s) s
      else (effectCleanup s)\<lparr> status := ''Paused'' \<rparr>)"

text \<open>The state after the first render and its effect.\<close>

definition mounted :: state where
  "mounted = effectBody initial"

text \<open>\<^verbatim>\<open>setIsLive(b)\<close>, the render that follows and its effects. Setting the value the state
  already has causes no render.\<close>

definition setLive :: "bool \<Rightarrow> state \<Rightarrow> state" where
  "setLive b s = (if isLive s = b then s else effectBody (effectCleanup (s\<lparr> isLive := b \<rparr>)))"

subsection \<open>The event loop\<close>

text \<open>
  What can happen to the mounted component, one turn of the event loop at a time. The
  browser delivers \<open>Opened\<close>, \<open>Message\<close> and \<open>Errored\<close> only for the event source the
  reference holds (a closed one is silent). \<open>Errored fatal\<close> leaves the source \<open>CLOSED\<close>
  when the browser gives up and \<open>CONNECTING\<close> when it retries by itself. \<open>FetchDone i out\<close>
  ends the image request of the \<open>i\<close>-th suspended frame handler, \<open>TimerFired i\<close> runs the
  \<open>i\<close>-th scheduled callback.
\<close>

datatype event =
    Opened
  | Message payload
  | Errored bool
  | FetchDone nat fetch_outcome
  | TimerFired nat
  | SetLive bool

definition drop_nth :: "nat \<Rightarrow> 'a list \<Rightarrow> 'a list" where
  "drop_nth i xs = take i xs @ drop (Suc i) xs"

definition step :: "env \<Rightarrow> state \<Rightarrow> event \<Rightarrow> state" where
  "step e s ev =
     (case ev of
        Opened \<Rightarrow>
          (case eventSource s of
             None \<Rightarrow> s
           | Some es \<Rightarrow> onopen (s\<lparr> eventSource := Some (es\<lparr> es_readyState := OPEN \<rparr>) \<rparr>))
      | Message raw \<Rightarrow>
          (case eventSource s of None \<Rightarrow> s | Some _ \<Rightarrow> onmessage e raw s)
      | Errored fatal \<Rightarrow>
          (case eventSource s of
             None \<Rightarrow> s
           | Some es \<Rightarrow>
               onerror (es_isLive es)
                 (s\<lparr> eventSource :=
                      Some (es\<lparr> es_readyState := (if fatal then CLOSED else CONNECTING) \<rparr>) \<rparr>))
      | FetchDone i out \<Rightarrow>
          (if i < length (fetches s)
           then completeFrame e (fetches s ! i) out (s\<lparr> fetches := drop_nth i (fetches s) \<rparr>)
           else s)
      | TimerFired i \<Rightarrow>
          (if i < length (timers s)
           then reconnectCallback (tm_isLive (timers s ! i))
                  (s\<lparr> timers := drop_nth i (timers s) \<rparr>)
           else s)
      | SetLive b \<Rightarrow> setLive b s)"

definition run :: "env \<Rightarrow> state \<Rightarrow> event list \<Rightarrow> state" where
  "run e s evs = foldl (step e) s evs"

text \<open>The messages the server sends for a detection and for a frame.\<close>

definition detectionMessage :: "detection_data \<Rightarrow> event" where
  "detectionMessage d =
     Message (Parsed \<lparr> msg_type = ''detection'', msg_error = None, msg_data = DetectionData d \<rparr>)"

definition frameMessage :: "frame_data \<Rightarrow> event" where
  "frameMessage fd =
     Message (Parsed \<lparr> msg_type = ''frame'', msg_error = None, msg_data = FrameEventData fd \<rparr>)"

subsection \<open>The overlay of the zoomed image\<close>

text \<open>The callback of \<^verbatim>\<open>setTimeout\<close> in \<^verbatim>\<open>onLoad\<close> (lines 670 to 697), from the natural size
  of the image and the size of its bounding rectangle.\<close>

record image_scale =
  scaleX :: real
  scaleY :: real
  offsetX :: real
  offsetY :: real
  displayWidth :: real
  displayHeight :: real

definition computeImageScale :: "real \<Rightarrow> real \<Rightarrow> real \<Rightarrow> real \<Rightarrow> image_scale" where
  "computeImageScale naturalWidth naturalHeight rectWidth rectHeight =
     (let sx = rectWidth / naturalWidth;
          sy = rectHeight / naturalHeight;
          sc = min sx sy;
          renderedWidth = naturalWidth * sc;
          renderedHeight = naturalHeight * sc
      in \<lparr> scaleX = sc, scaleY = sc,
           offsetX = (rectWidth - renderedWidth) / 2,
           offsetY = (rectHeight - renderedHeight) / 2,
           displayWidth = renderedWidth, displayHeight = renderedHeight \<rparr>)"

text \<open>Lines 731 to 737: the corners of one box in overlay coordinates.\<close>

definition scaleBox :: "image_scale \<Rightarrow> real \<times> real \<times> real \<times> real \<Rightarrow> real \<times> real \<times> real \<times> real" where
  "scaleBox sc b =
     (case b of (x1, y1, x2, y2) \<Rightarrow>
        (x1 * scaleX sc + offsetX sc, y1 * scaleY sc + offsetY sc,
         x2 * scaleX sc + offsetX sc, y2 * scaleY sc + offsetY sc))"

subsection \<open>Notions used in the statements\<close>

text \<open>The state without its two text channels, the status line and the console.\<close>

definition core :: "state \<Rightarrow> state" where
  "core s = s\<lparr> status := [], console := [] \<rparr>"

text \<open>The ways an image request fails: every outcome but a loaded image.\<close>

definition isFailure :: "fetch_outcome \<Rightarrow> bool" where
  "isFailure out = (case out of ImageLoaded _ \<Rightarrow> False | _ \<Rightarrow> True)"

text \<open>A card without its image: the frame, the address of its detections and the
  comparison timestamp.\<close>

definition cardData :: "DetectionCard \<Rightarrow> frame_data \<times> addr \<times> int option" where
  "cardData c = (fd_frame (frameData c), fd_detections (frameData c), messageTimestamp c)"

text \<open>Every suspended frame handler and every waiting frame has a timestamp the host can
  parse; an event brings no frame whose timestamp it cannot.\<close>

definition timestampsParse :: "env \<Rightarrow> state \<Rightarrow> bool" where
  "timestampsParse e s =
     ((\<forall>p \<in> set (fetches s). pf_messageTimestamp p \<noteq> None) \<and>
      (\<forall>f fd. pendingFrames s f = Some fd \<longrightarrow> getTime e (fr_timestamp fd) \<noteq> None))"

definition frameParses :: "env \<Rightarrow> event \<Rightarrow> bool" where
  "frameParses e ev =
     (case ev of
        Message (Parsed m) \<Rightarrow>
          (case msg_data m of
             FrameEventData fd \<Rightarrow> getTime e (fr_timestamp fd) \<noteq> None
           | _ \<Rightarrow> True)
      | _ \<Rightarrow> True)"

text \<open>No trace of frame \<open>f\<close> among the buffered detections and the suspended frame
  handlers; an event that delivers a detection of frame \<open>f\<close>; a slot that shows
  frame \<open>f\<close>.\<close>

definition untouched :: "string \<Rightarrow> state \<Rightarrow> bool" where
  "untouched f s =
     (pendingDetections s f = None \<and> (\<forall>p \<in> set (fetches s). fr_id (pf_event p) \<noteq> f))"

definition detectionFor :: "string \<Rightarrow> event \<Rightarrow> bool" where
  "detectionFor f ev =
     (case ev of
        Message (Parsed m) \<Rightarrow>
          msg_type m = ''detection'' \<and>
          (case msg_data m of DetectionData d \<Rightarrow> frame_id d = f | _ \<Rightarrow> False)
      | _ \<Rightarrow> False)"

definition holdsFrame :: "string \<Rightarrow> DetectionCard option \<Rightarrow> bool" where
  "holdsFrame f slot =
     (case slot of None \<Rightarrow> False | Some c \<Rightarrow> fr_id (fd_frame (frameData c)) = f)"

text \<open>An object of the store that the pending buffer no longer refers to, and the shape
  of the store: a buffered aggregate sits under its own frame id, a suspended handler
  holds the aggregate of its frame, and the aggregates of the cards are out of the
  buffer.\<close>

definition frozen :: "state \<Rightarrow> addr \<Rightarrow> bool" where
  "frozen s a = (a < length (heap s) \<and> (\<forall>f. pendingDetections s f \<noteq> Some a))"

definition heapInv :: "state \<Rightarrow> bool" where
  "heapInv s =
     ((\<forall>f a. pendingDetections s f = Some a \<longrightarrow>
          a < length (heap s) \<and> frameId (heap s ! a) = f)
      \<and> (\<forall>p \<in> set (fetches s). pf_frameDetections p < length (heap s)
            \<and> frameId (heap s ! pf_frameDetections p) = fr_id (pf_event p))
      \<and> (\<forall>k c. detections_map s k = Some c \<longrightarrow> frozen s (fd_detections (frameData c))))"

text \<open>The suspended handler that a frame event leaves behind when the aggregate of its
  frame is the next object of the store.\<close>

definition suspended :: "env \<Rightarrow> frame_data \<Rightarrow> state \<Rightarrow> pending_fetch" where
  "suspended e fd s =
     \<lparr> pf_event = fd, pf_messageTimestamp = getTime e (fr_timestamp fd),
       pf_frameDetections = length (heap s) \<rparr>"

text \<open>Every closure attached to the event source or waiting in a timer was made in a
  render whose \<^verbatim>\<open>isLive\<close> was true.\<close>

definition liveClosures :: "state \<Rightarrow> bool" where
  "liveClosures s =
     ((\<forall>es. eventSource s = Some es \<longrightarrow> es_isLive es) \<and> (\<forall>t \<in> set (timers s). tm_isLive t))"

text \<open>No suspended handler and no waiting frame event carries frame \<open>f\<close>; an event
  that delivers a frame event of frame \<open>f\<close>.\<close>

definition settled :: "string \<Rightarrow> state \<Rightarrow> bool" where
  "settled f s =
     ((\<forall>p \<in> set (fetches s). fr_id (pf_event p) \<noteq> f) \<and>
      (\<forall>g fd. pendingFrames s g = Some fd \<longrightarrow> fr_id fd \<noteq> f))"


subsection \<open>Sample data\<close>

text \<open>A host whose date parser knows three instants and rejects everything else, and the
  detection and frame of the end-to-end scenario.\<close>

definition sampleEnv :: env where
  "sampleEnv =
     \<lparr> getTime = map_of
         [(''2025-01-01T00:00:00Z'', 1735689600000),
          (''2025-01-01T00:00:01Z'', 1735689601000),
          (''2025-01-01T00:00:02Z'', 1735689602000)],
       alertsEnabled = True \<rparr>"

definition truck :: detection_data where
  "truck = \<lparr> det_id = 1, frame_id = ''f1'', det_timestamp = ''2025-01-01T00:00:00Z'',
     label = ''truck'', class_id = 7, confidence = 92 / 100, bbox = (0, 0, 10, 10) \<rparr>"

definition car :: detection_data where
  "car = \<lparr> det_id = 2, frame_id = ''f1'', det_timestamp = ''2025-01-01T00:00:00Z'',
     label = ''car'', class_id = 2, confidence = 55, bbox = (100, 100, 300, 300) \<rparr>"

definition frame1 :: frame_data where
  "frame1 = \<lparr> fr_id = ''f1'', fr_timestamp = ''2025-01-01T00:00:00Z'',
     ingest_timestamp = ''2025-01-01T00:00:00Z'', update_timestamp = ''2025-01-01T00:00:00Z'',
     stream_id = ''cam1'', fps = 30, fr_scale = 1 \<rparr>"

section \<open>Properties\<close>

subsection \<open>Basic facts about the handlers\<close>

lemma mounted_eq:
  "mounted = \<lparr> status = ''Connecting...'', isLive = True, detections_map = Map.empty,
     pendingDetections = Map.empty, pendingFrames = Map.empty, knownStreamIds = {},
     eventSource = Some \<lparr> es_readyState = CONNECTING, es_isLive = True \<rparr>,
     heap = [], fetches = [], timers = [], toasts = [], console = [] \<rparr>"
  by (simp add: mounted_def effectBody_def initial_def connect_def)

lemma bufferDetection_None:
  "pendingDetections s (frame_id d) = None \<Longrightarrow>
   bufferDetection d s =
     s\<lparr> heap := heap s @ [addDetection (emptyFrameDetections (frame_id d)) d],
        pendingDetections := (pendingDetections s)(frame_id d \<mapsto> length (heap s)) \<rparr>"
  by (simp add: bufferDetection_def)

lemma bufferDetection_Some:
  "pendingDetections s (frame_id d) = Some a \<Longrightarrow>
   bufferDetection d s = s\<lparr> heap := (heap s)[a := addDetection (heap s ! a) d] \<rparr>"
  by (simp add: bufferDetection_def)

lemma handleFrameEvent_fields:
  "heap (handleFrameEvent e ev s) = heap s"
  "pendingDetections (handleFrameEvent e ev s) = pendingDetections s"
  "detections_map (handleFrameEvent e ev s) = detections_map s"
  "eventSource (handleFrameEvent e ev s) = eventSource s"
  "status (handleFrameEvent e ev s) = status s"
  "timers (handleFrameEvent e ev s) = timers s"
  "isLive (handleFrameEvent e ev s) = isLive s"
  "knownStreamIds (handleFrameEvent e ev s) = knownStreamIds s"
  "toasts (handleFrameEvent e ev s) = toasts s"
  by (simp_all add: handleFrameEvent_def split: msg_data.split option.split)

lemma heap_handleDetectionEvent:
  "frame_id d \<noteq> [] \<Longrightarrow>
   heap (handleDetectionEvent e (DetectionData d) s) = heap (bufferDetection d s)"
  by (simp add: handleDetectionEvent_def Let_def handleFrameEvent_fields split: option.split)

lemma labels_addDetection:
  "labels (addDetection fds d) (label d) =
     Some (case labels fds (label d) of
             None \<Rightarrow> normalizeScore (confidence d)
           | Some cur \<Rightarrow>
               if cur = 0 \<or> cur < normalizeScore (confidence d)
               then normalizeScore (confidence d) else cur)"
  by (simp add: addDetection_def Let_def split: option.split)

lemma labels_addDetection_percent:
  "labels (addDetection fds (d\<lparr> confidence := 87 \<rparr>)) =
   labels (addDetection fds (d\<lparr> confidence := 87 / 100 \<rparr>))"
  by (simp add: addDetection_def normalizeScore_def Let_def split: option.split)

subsection \<open>Confidence normalisation\<close>

text \<open>
  Claim C5. A raw confidence above 1 is divided by 100, any other is used as it is, and
  it is the normalised value that is compared with the label's current score and stored:
  the first detection of a frame stores it, a later one stores it when the label has no
  score yet (or the score 0) or a smaller one. The raw confidences 87 and 0.87 of the
  same detection leave the same label maps, with the entry 0.87.
\<close>

theorem confidence_normalized_before_store:
  assumes "frame_id d \<noteq> []"
  shows "normalizeScore c = (if 1 < c then c / 100 else c)
    \<and> (pendingDetections s (frame_id d) = None \<longrightarrow>
         labels (heap (handleDetectionEvent e (DetectionData d) s) ! length (heap s)) =
           [label d \<mapsto> (if 1 < confidence d then confidence d / 100 else confidence d)])
    \<and> (pendingDetections s (frame_id d) = Some a \<and> a < length (heap s) \<longrightarrow>
         labels (heap (handleDetectionEvent e (DetectionData d) s) ! a) (label d) =
           Some (case labels (heap s ! a) (label d) of
                   None \<Rightarrow> normalizeScore (confidence d)
                 | Some cur \<Rightarrow>
                     if cur = 0 \<or> cur < normalizeScore (confidence d)
                     then normalizeScore (confidence d) else cur))
    \<and> map labels (heap (handleDetectionEvent e (DetectionData (d\<lparr> confidence := 87 \<rparr>)) s)) =
       map labels (heap (handleDetectionEvent e (DetectionData (d\<lparr> confidence := 87 / 100 \<rparr>)) s))
    \<and> (pendingDetections s (frame_id d) = None \<longrightarrow>
         labels (heap (handleDetectionEvent e (DetectionData (d\<lparr> confidence := 87 \<rparr>)) s)
                 ! length (heap s)) (label d) = Some (87 / 100)
       \<and> labels (heap (handleDetectionEvent e (DetectionData (d\<lparr> confidence := 87 / 100 \<rparr>)) s)
                 ! length (heap s)) (label d) = Some (87 / 100))"
proof -
  have fresh: "labels (heap (handleDetectionEvent e (DetectionData d') s) ! length (heap s)) =
      [label d' \<mapsto> normalizeScore (confidence d')]"
    if "frame_id d' \<noteq> []" "pendingDetections s (frame_id d') = None" for d'
    using that
    by (simp add: heap_handleDetectionEvent bufferDetection_None addDetection_def
        emptyFrameDetections_def Let_def)
  have known: "labels (heap (handleDetectionEvent e (DetectionData d) s) ! a) (label d) =
      Some (case labels (heap s ! a) (label d) of
              None \<Rightarrow> normalizeScore (confidence d)
            | Some cur \<Rightarrow>
                if cur = 0 \<or> cur < normalizeScore (confidence d)
                then normalizeScore (confidence d) else cur)"
    if "pendingDetections s (frame_id d) = Some a" "a < length (heap s)"
    using that assms
    by (simp add: heap_handleDetectionEvent bufferDetection_Some labels_addDetection)
  have same: "map labels (heap (handleDetectionEvent e (DetectionData (d\<lparr> confidence := 87 \<rparr>)) s)) =
      map labels (heap (handleDetectionEvent e (DetectionData (d\<lparr> confidence := 87 / 100 \<rparr>)) s))"
  proof (cases "pendingDetections s (frame_id d)")
    case None
    with assms show ?thesis
      by (simp add: heap_handleDetectionEvent bufferDetection_None labels_addDetection_percent)
  next
    case (Some b)
    with assms show ?thesis
      by (simp add: heap_handleDetectionEvent bufferDetection_Some labels_addDetection_percent
          map_update)
  qed
  have n: "normalizeScore c = (if 1 < c then c / 100 else c)"
    by (simp add: normalizeScore_def)
  from assms show ?thesis
    using fresh [of d] fresh [of "d\<lparr> confidence := 87 \<rparr>"]
      fresh [of "d\<lparr> confidence := 87 / 100 \<rparr>"] known same n
    by (simp add: normalizeScore_def)
qed

theorem confidence_normalized_before_store_witness:
  "frame_id truck \<noteq> []
   \<and> normalizeScore 87 = 87 / 100
   \<and> labels (heap (handleDetectionEvent sampleEnv (DetectionData truck) mounted) ! 0) =
       [''truck'' \<mapsto> 92 / 100]
   \<and> labels (heap (handleDetectionEvent sampleEnv
         (DetectionData (truck\<lparr> confidence := 87 \<rparr>)) mounted) ! 0) ''truck'' = Some (87 / 100)"
proof -
  have h: "frame_id truck \<noteq> []"
    by (simp add: truck_def)
  have p: "pendingDetections mounted (frame_id truck) = None"
    by (simp add: mounted_eq)
  show ?thesis
    using h p confidence_normalized_before_store [OF h, of 87 mounted sampleEnv 0]
    by (simp add: truck_def mounted_eq)
qed

subsection \<open>The overlay transform\<close>

text \<open>
  Claim C8. The overlay uses one scale factor, the smaller of displayed width over
  natural width and displayed height over natural height, and the offsets that centre
  the rendered image in the displayed rectangle; a box corner is mapped to
  \<open>raw * scale + offset\<close>. A 1920 by 1080 image displayed in 960 by 600 has scale 1/2
  and offsets 0 and 30, so the box (100, 100, 300, 300) becomes (50, 50, 150, 150) moved
  by the offsets. In a container wider than the image the vertical offset is 0 and the
  horizontal one is half of the free width; in a taller one it is the other way round.
\<close>

theorem overlay_transform:
  assumes "0 < nw" and "0 < nh"
  shows "scaleX (computeImageScale nw nh dw dh) = min (dw / nw) (dh / nh)
    \<and> scaleY (computeImageScale nw nh dw dh) = min (dw / nw) (dh / nh)
    \<and> offsetX (computeImageScale nw nh dw dh) = (dw - nw * min (dw / nw) (dh / nh)) / 2
    \<and> offsetY (computeImageScale nw nh dw dh) = (dh - nh * min (dw / nw) (dh / nh)) / 2
    \<and> scaleBox (computeImageScale nw nh dw dh) (x1, y1, x2, y2) =
        (x1 * min (dw / nw) (dh / nh) + offsetX (computeImageScale nw nh dw dh),
         y1 * min (dw / nw) (dh / nh) + offsetY (computeImageScale nw nh dw dh),
         x2 * min (dw / nw) (dh / nh) + offsetX (computeImageScale nw nh dw dh),
         y2 * min (dw / nw) (dh / nh) + offsetY (computeImageScale nw nh dw dh))
    \<and> computeImageScale 1920 1080 960 600 =
        \<lparr> scaleX = 1 / 2, scaleY = 1 / 2, offsetX = 0, offsetY = 30,
          displayWidth = 960, displayHeight = 540 \<rparr>
    \<and> scaleBox (computeImageScale 1920 1080 960 600) (100, 100, 300, 300) =
        (50 + 0, 50 + 30, 150 + 0, 150 + 30)
    \<and> (dh / nh \<le> dw / nw \<longrightarrow>
         offsetY (computeImageScale nw nh dw dh) = 0
         \<and> offsetX (computeImageScale nw nh dw dh) = (dw - nw * (dh / nh)) / 2
         \<and> 0 \<le> offsetX (computeImageScale nw nh dw dh))
    \<and> (dw / nw \<le> dh / nh \<longrightarrow>
         offsetX (computeImageScale nw nh dw dh) = 0
         \<and> offsetY (computeImageScale nw nh dw dh) = (dh - nh * (dw / nw)) / 2
         \<and> 0 \<le> offsetY (computeImageScale nw nh dw dh))"
proof -
  have general: "scaleX (computeImageScale nw nh dw dh) = min (dw / nw) (dh / nh)"
    "scaleY (computeImageScale nw nh dw dh) = min (dw / nw) (dh / nh)"
    "offsetX (computeImageScale nw nh dw dh) = (dw - nw * min (dw / nw) (dh / nh)) / 2"
    "offsetY (computeImageScale nw nh dw dh) = (dh - nh * min (dw / nw) (dh / nh)) / 2"
    by (simp_all add: computeImageScale_def Let_def)
  have box: "scaleBox (computeImageScale nw nh dw dh) (x1, y1, x2, y2) =
        (x1 * min (dw / nw) (dh / nh) + offsetX (computeImageScale nw nh dw dh),
         y1 * min (dw / nw) (dh / nh) + offsetY (computeImageScale nw nh dw dh),
         x2 * min (dw / nw) (dh / nh) + offsetX (computeImageScale nw nh dw dh),
         y2 * min (dw / nw) (dh / nh) + offsetY (computeImageScale nw nh dw dh))"
    by (simp add: scaleBox_def general)
  have example: "computeImageScale 1920 1080 960 600 =
        \<lparr> scaleX = 1 / 2, scaleY = 1 / 2, offsetX = 0, offsetY = 30,
          displayWidth = 960, displayHeight = 540 \<rparr>"
    "scaleBox (computeImageScale 1920 1080 960 600) (100, 100, 300, 300) =
        (50 + 0, 50 + 30, 150 + 0, 150 + 30)"
    by (simp_all add: computeImageScale_def scaleBox_def Let_def)
  have wide: "offsetY (computeImageScale nw nh dw dh) = 0
         \<and> offsetX (computeImageScale nw nh dw dh) = (dw - nw * (dh / nh)) / 2
         \<and> 0 \<le> offsetX (computeImageScale nw nh dw dh)" if "dh / nh \<le> dw / nw"
  proof -
    from that have m: "min (dw / nw) (dh / nh) = dh / nh"
      by (simp add: min_def)
    from that assms have "nw * (dh / nh) \<le> dw"
      by (simp add: field_simps)
    with assms show ?thesis
      by (simp add: general m)
  qed
  have tall: "offsetX (computeImageScale nw nh dw dh) = 0
         \<and> offsetY (computeImageScale nw nh dw dh) = (dh - nh * (dw / nw)) / 2
         \<and> 0 \<le> offsetY (computeImageScale nw nh dw dh)" if "dw / nw \<le> dh / nh"
  proof -
    from that have m: "min (dw / nw) (dh / nh) = dw / nw"
      by (simp add: min_def)
    from that assms have "nh * (dw / nw) \<le> dh"
      by (simp add: field_simps)
    with assms show ?thesis
      by (simp add: general m)
  qed
  show ?thesis
    using general box example wide tall by blast
qed

theorem overlay_transform_witness:
  "(0::real) < 1080 \<and> (0::real) < 1920
   \<and> offsetX (computeImageScale 1080 1920 960 600) = 311.25
   \<and> offsetY (computeImageScale 1080 1920 960 600) = 0
   \<and> scaleBox (computeImageScale 1080 1920 960 600) (100, 100, 300, 300) =
       (342.5, 31.25, 405, 93.75)"
proof -
  have a: "(0::real) < 1080" and b: "(0::real) < 1920"
    by simp_all
  show ?thesis
    using overlay_transform [OF a b, of 960 600 100 100 300 300]
    by (simp add: min_def)
qed

lemma completeFrame_stale:
  "isStale (pf_messageTimestamp p) (detections_map s (stream_id (pf_event p))) \<Longrightarrow>
   completeFrame e p out s =
     s\<lparr> console := console s @ snd (fetchImage (fr_id (pf_event p)) out) \<rparr>"
  by (simp add: completeFrame_def Let_def split: prod.split)

lemma completeFrame_fresh:
  assumes "\<not> isStale (pf_messageTimestamp p) (detections_map s (stream_id (pf_event p)))"
  shows "detections_map (completeFrame e p out s) =
           (detections_map s)(stream_id (pf_event p) \<mapsto>
              makeCard p (fst (fetchImage (fr_id (pf_event p)) out)))"
    and "pendingDetections (completeFrame e p out s) =
           (pendingDetections s)(fr_id (pf_event p) := None)"
  using assms by (simp_all add: completeFrame_def Let_def split: prod.split)

lemma completeFrame_fields:
  "heap (completeFrame e p out s) = heap s"
  "fetches (completeFrame e p out s) = fetches s"
  "pendingFrames (completeFrame e p out s) = pendingFrames s"
  "eventSource (completeFrame e p out s) = eventSource s"
  "timers (completeFrame e p out s) = timers s"
  "status (completeFrame e p out s) = status s"
  "isLive (completeFrame e p out s) = isLive s"
  "console (completeFrame e p out s) = console s @ snd (fetchImage (fr_id (pf_event p)) out)"
  by (simp_all add: completeFrame_def Let_def split: prod.split)

lemmas model_defs = run_def step_def onmessage_def handleDetectionEvent_def
  handleFrameEvent_def bufferDetection_def addDetection_def emptyFrameDetections_def
  completeFrame_def isStale_def makeCard_def orUndefined_def normalizeScore_def
  detectionMessage_def frameMessage_def drop_nth_def Let_def mounted_eq sampleEnv_def
  truck_def car_def frame1_def

subsection \<open>Messages that report a server error\<close>

lemma core_update [simp]:
  "core (s\<lparr> status := x \<rparr>) = core s" "core (s\<lparr> console := c \<rparr>) = core s"
  by (simp_all add: core_def)

lemma core_handleFrameEvent:
  "core (handleFrameEvent e ev (s\<lparr> console := c, status := x \<rparr>)) =
   core (handleFrameEvent e ev s)"
  by (simp add: handleFrameEvent_def core_def split: msg_data.split option.split)

lemma bufferDetection_text:
  "bufferDetection d (s\<lparr> console := c, status := x \<rparr>) =
   (bufferDetection d s)\<lparr> console := c, status := x \<rparr>"
  by (simp add: bufferDetection_def split: option.split)

lemma core_handleDetectionEvent:
  "core (handleDetectionEvent e ev (s\<lparr> console := c, status := x \<rparr>)) =
   core (handleDetectionEvent e ev s)"
proof (cases ev)
  case (DetectionData d)
  have "core (handleDetectionEvent e (DetectionData d) (s\<lparr> console := c, status := x \<rparr>)) =
        core (handleDetectionEvent e (DetectionData d) s)"
    apply (simp add: handleDetectionEvent_def bufferDetection_text Let_def split: option.split)
    apply (simp add: core_def handleFrameEvent_def split: option.split)
    done
  with DetectionData show ?thesis by simp
qed (simp_all add: handleDetectionEvent_def)

lemma core_step:
  "core (step e (s\<lparr> console := c, status := x \<rparr>) ev) = core (step e s ev)"
proof (cases ev)
  case Opened
  then show ?thesis
    by (simp add: step_def onopen_def core_def split: option.split)
next
  case (Message raw)
  then show ?thesis
    by (cases raw)
      (simp_all add: step_def onmessage_def core_handleDetectionEvent core_handleFrameEvent
        split: option.split)
next
  case (Errored fatal)
  then show ?thesis
    by (simp add: step_def onerror_def core_def split: option.split)
next
  case (FetchDone i out)
  then show ?thesis
    by (simp add: step_def completeFrame_def core_def Let_def split: option.split prod.split)
next
  case (TimerFired i)
  then show ?thesis
    by (simp add: step_def reconnectCallback_def connect_def core_def Let_def
        split: option.split)
next
  case (SetLive b)
  then show ?thesis
    by (simp add: step_def setLive_def effectBody_def effectCleanup_def connect_def core_def
        Let_def split: option.split)
qed

text \<open>
  Claim C6, as stated: every message with an \<^verbatim>\<open>error\<close> field sets the status to an error.
  The handler returns at the keep-alive test before it looks at the field: a message
  with an error and no \<^verbatim>\<open>type\<close> leaves the state, status included, as it was.
\<close>

theorem error_without_type_ignored:
  "msg_error \<lparr> msg_type = [], msg_error = Some ''boom'', msg_data = NoData \<rparr> = Some ''boom''
   \<and> step sampleEnv mounted
       (Message (Parsed \<lparr> msg_type = [], msg_error = Some ''boom'', msg_data = NoData \<rparr>)) = mounted
   \<and> status mounted = ''Connecting...''"
  by (simp add: step_def onmessage_def mounted_eq)

text \<open>
  Claim C6, amended. A message that has a type and a non-empty \<^verbatim>\<open>error\<close> sets the status
  to the error text and logs it; nothing else changes and no handler runs. Whatever
  happens next has the effect it would have had without the message, up to the status
  line and the console.
\<close>

theorem server_error_only_sets_status:
  assumes "msg_type m \<noteq> []" and "msg_error m = Some err" and "err \<noteq> []"
  shows "onmessage e (Parsed m) s =
           s\<lparr> console := console s @ [''Server error: '' @ err], status := ''Error: '' @ err \<rparr>
    \<and> (\<forall>ev. core (step e (onmessage e (Parsed m) s) ev) = core (step e s ev))"
proof -
  have a: "onmessage e (Parsed m) s =
           s\<lparr> console := console s @ [''Server error: '' @ err], status := ''Error: '' @ err \<rparr>"
    using assms by (simp add: onmessage_def)
  show ?thesis
    unfolding a by (simp add: core_step)
qed

theorem server_error_only_sets_status_witness:
  "status (onmessage sampleEnv
      (Parsed \<lparr> msg_type = ''detection'', msg_error = Some ''boom'',
                msg_data = DetectionData truck \<rparr>) mounted) = ''Error: boom''
   \<and> heap (onmessage sampleEnv
      (Parsed \<lparr> msg_type = ''detection'', msg_error = Some ''boom'',
                msg_data = DetectionData truck \<rparr>) mounted) = []
   \<and> core (step sampleEnv (onmessage sampleEnv
      (Parsed \<lparr> msg_type = ''detection'', msg_error = Some ''boom'',
                msg_data = DetectionData truck \<rparr>) mounted) (detectionMessage truck)) =
     core (step sampleEnv mounted (detectionMessage truck))"
proof -
  let ?m = "\<lparr> msg_type = ''detection'', msg_error = Some ''boom'',
               msg_data = DetectionData truck \<rparr>"
  have h: "msg_type ?m \<noteq> []" "msg_error ?m = Some ''boom''" "''boom'' \<noteq> []"
    by simp_all
  note t = server_error_only_sets_status [OF h, of sampleEnv mounted]
  have a: "onmessage sampleEnv (Parsed ?m) mounted =
      mounted\<lparr> console := console mounted @ [''Server error: '' @ ''boom''],
                status := ''Error: '' @ ''boom'' \<rparr>"
    using t by (rule conjunct1)
  have b: "core (step sampleEnv (onmessage sampleEnv (Parsed ?m) mounted) (detectionMessage truck)) =
      core (step sampleEnv mounted (detectionMessage truck))"
    using t by blast
  have c: "heap mounted = []"
    by (simp add: mounted_eq)
  show ?thesis
    using b c by (simp add: a)
qed

subsection \<open>Runs, and fields the handlers leave alone\<close>

lemma run_invariant:
  assumes "P s" and "\<And>s ev. P s \<Longrightarrow> ev \<in> set evs \<Longrightarrow> P (step e s ev)"
  shows "P (run e s evs)"
  using assms unfolding run_def
  by (induction evs arbitrary: s) auto

lemma run_append: "run e s (xs @ ys) = run e (run e s xs) ys"
  by (simp add: run_def)

lemma run_Cons: "run e s (x # xs) = run e (step e s x) xs"
  by (simp add: run_def)

lemma run_Nil: "run e s [] = s"
  by (simp add: run_def)

lemma bufferDetection_fields:
  "detections_map (bufferDetection d s) = detections_map s"
  "pendingFrames (bufferDetection d s) = pendingFrames s"
  "fetches (bufferDetection d s) = fetches s"
  "eventSource (bufferDetection d s) = eventSource s"
  "timers (bufferDetection d s) = timers s"
  "knownStreamIds (bufferDetection d s) = knownStreamIds s"
  by (simp_all add: bufferDetection_def split: option.split)

lemma handleDetectionEvent_fields:
  "detections_map (handleDetectionEvent e ev s) = detections_map s"
  "eventSource (handleDetectionEvent e ev s) = eventSource s"
  "timers (handleDetectionEvent e ev s) = timers s"
  by (simp_all add: handleDetectionEvent_def handleFrameEvent_fields bufferDetection_fields Let_def
       split: msg_data.split option.split)

lemma onmessage_detections_map: "detections_map (onmessage e raw s) = detections_map s"
  by (simp add: onmessage_def handleDetectionEvent_fields handleFrameEvent_fields split: payload.split)

lemma connect_fields:
  "detections_map (connect b s) = detections_map s"
  "fetches (connect b s) = fetches s"
  "pendingFrames (connect b s) = pendingFrames s"
  "pendingDetections (connect b s) = pendingDetections s"
  "heap (connect b s) = heap s"
  by (simp_all add: connect_def Let_def split: option.split)

lemma step_detections_map:
  "\<not> (\<exists>i out. ev = FetchDone i out) \<Longrightarrow> detections_map (step e s ev) = detections_map s"
  by (cases ev)
    (simp_all add: step_def onopen_def onerror_def onmessage_detections_map reconnectCallback_def
      setLive_def effectBody_def effectCleanup_def connect_fields split: option.split)

lemma fetches_handleFrameEvent:
  "set (fetches (handleFrameEvent e (FrameEventData fd) s)) \<subseteq>
     set (fetches s) \<union> {p. pf_messageTimestamp p = getTime e (fr_timestamp fd)}"
  by (auto simp: handleFrameEvent_def split: option.split)

lemma pendingFrames_handleFrameEvent:
  "pendingFrames (handleFrameEvent e (FrameEventData fd) s) f = Some fd' \<Longrightarrow>
     pendingFrames s f = Some fd' \<or> fd' = fd"
  by (auto simp: handleFrameEvent_def split: option.splits if_splits)

lemma timestampsParse_handleFrameEvent:
  "timestampsParse e s \<Longrightarrow> (\<forall>fd. ev = FrameEventData fd \<longrightarrow> getTime e (fr_timestamp fd) \<noteq> None) \<Longrightarrow>
   timestampsParse e (handleFrameEvent e ev s)"
proof (cases ev)
  case (FrameEventData fd)
  assume a: "timestampsParse e s" "\<forall>fd. ev = FrameEventData fd \<longrightarrow> getTime e (fr_timestamp fd) \<noteq> None"
  with FrameEventData have g: "getTime e (fr_timestamp fd) \<noteq> None" by simp
  show ?thesis unfolding FrameEventData timestampsParse_def
  proof (intro conjI ballI allI impI)
    fix p assume "p \<in> set (fetches (handleFrameEvent e (FrameEventData fd) s))"
    with fetches_handleFrameEvent [of e fd s] a g show "pf_messageTimestamp p \<noteq> None"
      by (auto simp: timestampsParse_def)
  next
    fix f fd' assume "pendingFrames (handleFrameEvent e (FrameEventData fd) s) f = Some fd'"
    from pendingFrames_handleFrameEvent [OF this] a g show "getTime e (fr_timestamp fd') \<noteq> None"
      by (auto simp: timestampsParse_def)
  qed
qed (simp_all add: handleFrameEvent_def timestampsParse_def)

lemma timestampsParse_handleDetectionEvent:
  assumes "timestampsParse e s"
  shows "timestampsParse e (handleDetectionEvent e ev s)"
proof (cases ev)
  case (DetectionData d)
  let ?s2 = "bufferDetection d s"
  have b: "timestampsParse e ?s2"
    using assms by (simp add: timestampsParse_def bufferDetection_fields)
  show ?thesis
  proof (cases "frame_id d = [] \<or> pendingFrames ?s2 (frame_id d) = None")
    case True
    then show ?thesis using assms b DetectionData
      by (auto simp: handleDetectionEvent_def Let_def)
  next
    case False
    then obtain pf where pf: "pendingFrames ?s2 (frame_id d) = Some pf" and ne: "frame_id d \<noteq> []" by auto
    with b have "getTime e (fr_timestamp pf) \<noteq> None" by (auto simp: timestampsParse_def)
    with b have "timestampsParse e (handleFrameEvent e (FrameEventData pf) ?s2)"
      by (intro timestampsParse_handleFrameEvent) auto
    then have "timestampsParse e ((handleFrameEvent e (FrameEventData pf) ?s2)
        \<lparr> pendingFrames := (pendingFrames (handleFrameEvent e (FrameEventData pf) ?s2))(frame_id d := None) \<rparr>)"
      by (auto simp: timestampsParse_def)
    with pf ne DetectionData show ?thesis
      by (simp add: handleDetectionEvent_def Let_def)
  qed
qed (use assms in \<open>simp_all add: handleDetectionEvent_def timestampsParse_def\<close>)

lemma set_drop_nth: "set (drop_nth i xs) \<subseteq> set xs"
  by (auto simp: drop_nth_def dest: in_set_takeD in_set_dropD)

lemma timestampsParse_step:
  assumes "timestampsParse e s" and "frameParses e ev"
  shows "timestampsParse e (step e s ev)"
proof (cases ev)
  case (Message raw)
  show ?thesis
  proof (cases raw)
    case Malformed
    with Message assms show ?thesis
      by (simp add: step_def onmessage_def timestampsParse_def split: option.split)
  next
    case (Parsed m)
    from assms(2) Message Parsed have "\<forall>fd. msg_data m = FrameEventData fd \<longrightarrow> getTime e (fr_timestamp fd) \<noteq> None"
      by (auto simp: frameParses_def)
    with assms(1) have "timestampsParse e (handleFrameEvent e (msg_data m) s)"
      by (rule timestampsParse_handleFrameEvent)
    moreover have "timestampsParse e (s\<lparr> console := c \<rparr>)" "timestampsParse e (s\<lparr> console := c, status := x \<rparr>)" for c x
      using assms(1) by (simp_all add: timestampsParse_def)
    ultimately show ?thesis
      using Message Parsed assms(1)
      by (simp add: step_def onmessage_def timestampsParse_handleDetectionEvent split: option.split)
  qed
next
  case (FetchDone i out)
  have "timestampsParse e (s\<lparr> fetches := drop_nth i (fetches s) \<rparr>)"
    using assms(1) set_drop_nth [of i "fetches s"] by (auto simp: timestampsParse_def)
  then have "timestampsParse e (completeFrame e p out (s\<lparr> fetches := drop_nth i (fetches s) \<rparr>))" for p
    by (simp add: timestampsParse_def completeFrame_fields)
  with FetchDone assms(1) show ?thesis
    by (simp add: step_def)
qed (use assms(1) in \<open>simp_all add: step_def onopen_def onerror_def reconnectCallback_def setLive_def effectBody_def
      effectCleanup_def connect_def Let_def timestampsParse_def split: option.split\<close>)

subsection \<open>Timestamps of the slots\<close>

lemma completeFrame_monotone:
  assumes "detections_map s k = Some c" "messageTimestamp c = Some t" "pf_messageTimestamp p \<noteq> None"
  shows "\<exists>c' t'. detections_map (completeFrame e p out s) k = Some c' \<and> messageTimestamp c' = Some t' \<and> t \<le> t'"
proof (cases "isStale (pf_messageTimestamp p) (detections_map s (stream_id (pf_event p)))")
  case True
  then show ?thesis using assms by (simp add: completeFrame_stale)
next
  case False
  from assms(3) obtain t1 where t1: "pf_messageTimestamp p = Some t1" by auto
  show ?thesis
  proof (cases "k = stream_id (pf_event p)")
    case True
    with False assms t1 have "t < t1" by (simp add: isStale_def)
    with True False t1 show ?thesis by (simp add: completeFrame_fresh makeCard_def)
  next
    case False
    with \<open>\<not> isStale _ _\<close> assms show ?thesis by (simp add: completeFrame_fresh)
  qed
qed

lemma step_monotone:
  assumes "timestampsParse e s" "detections_map s k = Some c" "messageTimestamp c = Some t"
  shows "\<exists>c' t'. detections_map (step e s ev) k = Some c' \<and> messageTimestamp c' = Some t' \<and> t \<le> t'"
proof (cases "\<exists>i out. ev = FetchDone i out")
  case True
  then obtain i out where ev: "ev = FetchDone i out" by auto
  show ?thesis
  proof (cases "i < length (fetches s)")
    case True
    with assms(1) have "pf_messageTimestamp (fetches s ! i) \<noteq> None"
      by (simp add: timestampsParse_def)
    from completeFrame_monotone [of "s\<lparr> fetches := drop_nth i (fetches s) \<rparr>" k c t "fetches s ! i" e out, OF _ assms(3) this]
      assms(2) True ev show ?thesis by (simp add: step_def)
  next
    case False
    with ev assms show ?thesis by (simp add: step_def)
  qed
next
  case False
  then have "detections_map (step e s ev) = detections_map s"
    by (rule step_detections_map)
  with assms show ?thesis by simp
qed

lemma run_monotone:
  assumes "timestampsParse e s" "\<forall>ev \<in> set evs. frameParses e ev"
    "detections_map s k = Some c" "messageTimestamp c = Some t"
  shows "\<exists>c' t'. detections_map (run e s evs) k = Some c' \<and> messageTimestamp c' = Some t' \<and> t \<le> t'"
  using assms
proof (induction evs arbitrary: s c t)
  case Nil
  then show ?case by (simp add: run_Nil)
next
  case (Cons ev evs)
  from step_monotone [OF Cons.prems(1,3,4), of ev]
  obtain c1 t1 where s1: "detections_map (step e s ev) k = Some c1" "messageTimestamp c1 = Some t1" "t \<le> t1"
    by blast
  have "timestampsParse e (step e s ev)"
    using Cons.prems by (intro timestampsParse_step) auto
  from Cons.IH [OF this _ s1(1,2)] Cons.prems(2)
  obtain c' t' where "detections_map (run e (step e s ev) evs) k = Some c'" "messageTimestamp c' = Some t'" "t1 \<le> t'"
    by auto
  with s1(3) show ?case by (auto simp: run_Cons)
qed

lemma two_frames:
  assumes "stream_id (pf_event p1) = k" "stream_id (pf_event p2) = k"
    "pf_messageTimestamp p1 = Some T1" "pf_messageTimestamp p2 = Some T2" "T1 < T2"
    "\<not> isStale (Some T2) (detections_map s k)"
  shows "detections_map (completeFrame e p2 o2 (completeFrame e p1 o1 s)) k =
           Some (makeCard p2 (fst (fetchImage (fr_id (pf_event p2)) o2)))
       \<and> detections_map (completeFrame e p1 o1 (completeFrame e p2 o2 s)) k =
           Some (makeCard p2 (fst (fetchImage (fr_id (pf_event p2)) o2)))"
proof
  have "\<not> isStale (Some T2) (detections_map (completeFrame e p1 o1 s) k)"
  proof (cases "isStale (pf_messageTimestamp p1) (detections_map s (stream_id (pf_event p1)))")
    case True
    then show ?thesis using assms by (simp add: completeFrame_stale)
  next
    case False
    then show ?thesis using assms by (simp add: completeFrame_fresh isStale_def makeCard_def)
  qed
  with assms show "detections_map (completeFrame e p2 o2 (completeFrame e p1 o1 s)) k =
           Some (makeCard p2 (fst (fetchImage (fr_id (pf_event p2)) o2)))"
    by (simp add: completeFrame_fresh)
next
  have a: "detections_map (completeFrame e p2 o2 s) k = Some (makeCard p2 (fst (fetchImage (fr_id (pf_event p2)) o2)))"
    using assms by (simp add: completeFrame_fresh)
  then have "isStale (pf_messageTimestamp p1) (detections_map (completeFrame e p2 o2 s) (stream_id (pf_event p1)))"
    using assms by (simp add: isStale_def makeCard_def)
  then show "detections_map (completeFrame e p1 o1 (completeFrame e p2 o2 s)) k =
           Some (makeCard p2 (fst (fetchImage (fr_id (pf_event p2)) o2)))"
    using a by (simp add: completeFrame_stale)
qed

text \<open>
  Claim C2: the timestamp stored for a stream never decreases, and a frame that is not
  newer than the slot is discarded. The code says so at the test (\<^verbatim>\<open>Only update if
  timestamp is greater than current\<close>) and misses the timestamp that does not parse: such
  a frame is stored over a newer frame, and the next frame is stored over it whatever
  its timestamp. After the frames of 00:00:02, of an unparseable instant and of
  00:00:00 the slot of the stream holds the frame of 00:00:00.
\<close>

theorem unparseable_timestamp_breaks_monotonicity:
  "map_option messageTimestamp (detections_map (run sampleEnv mounted
      [detectionMessage truck,
       frameMessage (frame1\<lparr> fr_timestamp := ''2025-01-01T00:00:02Z'' \<rparr>),
       FetchDone 0 (ImageLoaded ''img'')]) ''cam1'') = Some (Some 1735689602000)
   \<and> map_option messageTimestamp (detections_map (run sampleEnv mounted
      [detectionMessage truck,
       frameMessage (frame1\<lparr> fr_timestamp := ''2025-01-01T00:00:02Z'' \<rparr>),
       FetchDone 0 (ImageLoaded ''img''),
       detectionMessage (truck\<lparr> frame_id := ''f2'' \<rparr>),
       frameMessage (frame1\<lparr> fr_id := ''f2'', fr_timestamp := ''yesterday'' \<rparr>),
       FetchDone 0 (ImageLoaded ''img''),
       detectionMessage (truck\<lparr> frame_id := ''f3'' \<rparr>),
       frameMessage (frame1\<lparr> fr_id := ''f3'' \<rparr>),
       FetchDone 0 (ImageLoaded ''img'')]) ''cam1'') = Some (Some 1735689600000)"
  by (simp add: model_defs)

text \<open>
  Where every timestamp parses the code keeps the guarantee: the timestamp stored for a
  stream never decreases over a run; a completed frame whose timestamp is at most the
  stored one changes nothing (but for what its image request logged); and of two
  completed frames of a stream with timestamps \<open>T1 < T2\<close>, applied in either order to a
  slot that is not already as new as \<open>T2\<close>, the slot keeps the second.
\<close>

theorem slot_timestamps_monotone:
  assumes "timestampsParse e s" and "\<forall>ev \<in> set evs. frameParses e ev"
    and "detections_map s k = Some c" and "messageTimestamp c = Some t"
  shows "(\<exists>c' t'. detections_map (run e s evs) k = Some c' \<and> messageTimestamp c' = Some t'
            \<and> t \<le> t')
    \<and> (\<forall>(p::pending_fetch) out t1. stream_id (pf_event p) = k \<and> pf_messageTimestamp p = Some t1 \<and> t1 \<le> t \<longrightarrow>
          completeFrame e p out s =
            s\<lparr> console := console s @ snd (fetchImage (fr_id (pf_event p)) out) \<rparr>)
    \<and> (\<forall>(p1::pending_fetch) (p2::pending_fetch) o1 o2 T1 T2 (s0::state).
          stream_id (pf_event p1) = k \<and> stream_id (pf_event p2) = k
          \<and> pf_messageTimestamp p1 = Some T1 \<and> pf_messageTimestamp p2 = Some T2 \<and> T1 < T2
          \<and> \<not> isStale (Some T2) (detections_map s0 k) \<longrightarrow>
          detections_map (completeFrame e p2 o2 (completeFrame e p1 o1 s0)) k =
            Some (makeCard p2 (fst (fetchImage (fr_id (pf_event p2)) o2)))
          \<and> detections_map (completeFrame e p1 o1 (completeFrame e p2 o2 s0)) k =
            Some (makeCard p2 (fst (fetchImage (fr_id (pf_event p2)) o2))))"
proof (intro conjI allI impI)
  show "\<exists>c' t'. detections_map (run e s evs) k = Some c' \<and> messageTimestamp c' = Some t' \<and> t \<le> t'"
    using assms by (rule run_monotone)
next
  fix p :: pending_fetch and out t1
  assume "stream_id (pf_event p) = k \<and> pf_messageTimestamp p = Some t1 \<and> t1 \<le> t"
  with assms(3,4) have "isStale (pf_messageTimestamp p) (detections_map s (stream_id (pf_event p)))"
    by (simp add: isStale_def)
  then show "completeFrame e p out s =
      s\<lparr> console := console s @ snd (fetchImage (fr_id (pf_event p)) out) \<rparr>"
    by (rule completeFrame_stale)
next
  fix p1 p2 :: pending_fetch and o1 o2 T1 T2 and s0 :: state
  assume a: "stream_id (pf_event p1) = k \<and> stream_id (pf_event p2) = k
          \<and> pf_messageTimestamp p1 = Some T1 \<and> pf_messageTimestamp p2 = Some T2 \<and> T1 < T2
          \<and> \<not> isStale (Some T2) (detections_map s0 k)"
  then have b: "detections_map (completeFrame e p2 o2 (completeFrame e p1 o1 s0)) k =
           Some (makeCard p2 (fst (fetchImage (fr_id (pf_event p2)) o2)))
       \<and> detections_map (completeFrame e p1 o1 (completeFrame e p2 o2 s0)) k =
           Some (makeCard p2 (fst (fetchImage (fr_id (pf_event p2)) o2)))"
    by (intro two_frames) auto
  from b show "detections_map (completeFrame e p2 o2 (completeFrame e p1 o1 s0)) k =
           Some (makeCard p2 (fst (fetchImage (fr_id (pf_event p2)) o2)))" ..
  from b show "detections_map (completeFrame e p1 o1 (completeFrame e p2 o2 s0)) k =
           Some (makeCard p2 (fst (fetchImage (fr_id (pf_event p2)) o2)))" ..
qed

lemma first_frame_shown:
  "run sampleEnv mounted
     [detectionMessage truck, frameMessage frame1, FetchDone 0 (ImageLoaded ''img'')] =
   mounted\<lparr> detections_map :=
       [''cam1'' \<mapsto> \<lparr> frameData = \<lparr> fd_frame = frame1, imageUrl = Some ''img'',
                                     fd_detections = 0 \<rparr>,
                       messageTimestamp = Some 1735689600000 \<rparr>],
     knownStreamIds := {''cam1''},
     heap := [\<lparr> frameId = ''f1'',
                detections = [\<lparr> sd_id = 1, sd_label = ''truck'', sd_class_id = 7,
                                sd_confidence = 92 / 100, sd_bbox = (0, 0, 10, 10),
                                sd_timestamp = ''2025-01-01T00:00:00Z'' \<rparr>],
                labels = [''truck'' \<mapsto> 92 / 100], detectionCount = 1 \<rparr>],
     toasts := [''New stream: cam1''] \<rparr>"
  by (simp add: model_defs)

theorem slot_timestamps_monotone_witness:
  "(\<exists>c' t'. detections_map (run sampleEnv (run sampleEnv mounted
         [detectionMessage truck, frameMessage frame1, FetchDone 0 (ImageLoaded ''img'')])
        [detectionMessage (truck\<lparr> frame_id := ''f2'' \<rparr>),
         frameMessage (frame1\<lparr> fr_id := ''f2'', fr_timestamp := ''2025-01-01T00:00:02Z'' \<rparr>),
         FetchDone 0 FetchThrew]) ''cam1'' = Some c'
        \<and> messageTimestamp c' = Some t' \<and> 1735689600000 \<le> t')"
proof -
  let ?s = "run sampleEnv mounted
       [detectionMessage truck, frameMessage frame1, FetchDone 0 (ImageLoaded ''img'')]"
  let ?evs = "[detectionMessage (truck\<lparr> frame_id := ''f2'' \<rparr>),
         frameMessage (frame1\<lparr> fr_id := ''f2'', fr_timestamp := ''2025-01-01T00:00:02Z'' \<rparr>),
         FetchDone 0 FetchThrew]"
  let ?c = "\<lparr> frameData = \<lparr> fd_frame = frame1, imageUrl = Some ''img'', fd_detections = 0 \<rparr>,
              messageTimestamp = Some 1735689600000 \<rparr>"
  have h1: "timestampsParse sampleEnv ?s"
    unfolding first_frame_shown by (simp add: timestampsParse_def mounted_eq)
  have h2: "\<forall>ev \<in> set ?evs. frameParses sampleEnv ev"
    by (simp add: frameParses_def detectionMessage_def frameMessage_def sampleEnv_def)
  have h3: "detections_map ?s ''cam1'' = Some ?c"
    unfolding first_frame_shown by simp
  have h4: "messageTimestamp ?c = Some 1735689600000"
    by simp
  from slot_timestamps_monotone [OF h1 h2 h3 h4]
  show ?thesis
    by blast
qed

subsection \<open>Timestamps that do not parse\<close>

text \<open>
  Claim C10. The staleness test is \<open>\<le>\<close> on parsed timestamps and is false as soon as
  one side is \<^verbatim>\<open>NaN\<close>. A frame whose timestamp the host cannot parse is suspended with
  \<^verbatim>\<open>NaN\<close> as its timestamp; when it completes it replaces the slot of its stream
  whatever the slot holds, and any completed frame replaces a slot whose stored
  timestamp is \<^verbatim>\<open>NaN\<close>.
\<close>

theorem unparseable_timestamp_always_replaces:
  "\<not> js_le None x \<and> \<not> js_le x None
   \<and> (getTime e (fr_timestamp fd) = None \<and> stream_id fd \<noteq> [] \<and> fr_id fd \<noteq> []
        \<and> pendingDetections s (fr_id fd) = Some a \<and> detectionCount (heap s ! a) \<noteq> 0 \<longrightarrow>
      fetches (handleFrameEvent e (FrameEventData fd) s) =
        fetches s @ [\<lparr> pf_event = fd, pf_messageTimestamp = None, pf_frameDetections = a \<rparr>])
   \<and> (pf_messageTimestamp p = None
        \<or> (\<exists>c. detections_map s (stream_id (pf_event p)) = Some c \<and> messageTimestamp c = None) \<longrightarrow>
      detections_map (completeFrame e p out s) (stream_id (pf_event p)) =
        Some \<lparr> frameData = \<lparr> fd_frame = pf_event p,
                             imageUrl = orUndefined (fst (fetchImage (fr_id (pf_event p)) out)),
                             fd_detections = pf_frameDetections p \<rparr>,
               messageTimestamp = pf_messageTimestamp p \<rparr>)"
proof (intro conjI impI)
  show "\<not> js_le None x"
    by simp
  show "\<not> js_le x None"
    by (cases x) simp_all
next
  assume "getTime e (fr_timestamp fd) = None \<and> stream_id fd \<noteq> [] \<and> fr_id fd \<noteq> []
        \<and> pendingDetections s (fr_id fd) = Some a \<and> detectionCount (heap s ! a) \<noteq> 0"
  then show "fetches (handleFrameEvent e (FrameEventData fd) s) =
        fetches s @ [\<lparr> pf_event = fd, pf_messageTimestamp = None, pf_frameDetections = a \<rparr>]"
    by (simp add: handleFrameEvent_def)
next
  assume "pf_messageTimestamp p = None
        \<or> (\<exists>c. detections_map s (stream_id (pf_event p)) = Some c \<and> messageTimestamp c = None)"
  then have "\<not> isStale (pf_messageTimestamp p) (detections_map s (stream_id (pf_event p)))"
    by (cases "pf_messageTimestamp p") (auto simp: isStale_def split: option.split)
  then show "detections_map (completeFrame e p out s) (stream_id (pf_event p)) =
        Some \<lparr> frameData = \<lparr> fd_frame = pf_event p,
                             imageUrl = orUndefined (fst (fetchImage (fr_id (pf_event p)) out)),
                             fd_detections = pf_frameDetections p \<rparr>,
               messageTimestamp = pf_messageTimestamp p \<rparr>"
    by (simp add: completeFrame_fresh makeCard_def)
qed

theorem unparseable_timestamp_always_replaces_witness:
  "getTime sampleEnv ''yesterday'' = None
   \<and> map_option messageTimestamp (detections_map (run sampleEnv mounted
       [detectionMessage truck, frameMessage frame1, FetchDone 0 (ImageLoaded ''img'')])
       ''cam1'') = Some (Some 1735689600000)
   \<and> detections_map (completeFrame sampleEnv
        \<lparr> pf_event = frame1\<lparr> fr_id := ''f2'', fr_timestamp := ''yesterday'' \<rparr>,
          pf_messageTimestamp = None, pf_frameDetections = 1 \<rparr> (ImageLoaded ''img2'')
        (run sampleEnv mounted
          [detectionMessage truck, frameMessage frame1, FetchDone 0 (ImageLoaded ''img'')]))
       ''cam1'' =
      Some \<lparr> frameData = \<lparr> fd_frame = frame1\<lparr> fr_id := ''f2'', fr_timestamp := ''yesterday'' \<rparr>,
                           imageUrl = Some ''img2'', fd_detections = 1 \<rparr>,
             messageTimestamp = None \<rparr>"
proof -
  let ?p = "\<lparr> pf_event = frame1\<lparr> fr_id := ''f2'', fr_timestamp := ''yesterday'' \<rparr>,
          pf_messageTimestamp = None, pf_frameDetections = 1 \<rparr>"
  have h: "pf_messageTimestamp ?p = None"
    by simp
  have g: "getTime sampleEnv ''yesterday'' = None"
    by (simp add: sampleEnv_def)
  have st: "stream_id (pf_event ?p) = ''cam1''"
    by (simp add: frame1_def)
  from unparseable_timestamp_always_replaces
    [where e = sampleEnv and p = ?p and out = "ImageLoaded ''img2''"
       and s = "run sampleEnv mounted
          [detectionMessage truck, frameMessage frame1, FetchDone 0 (ImageLoaded ''img'')]"] h
  have "detections_map (completeFrame sampleEnv ?p (ImageLoaded ''img2'')
        (run sampleEnv mounted
          [detectionMessage truck, frameMessage frame1, FetchDone 0 (ImageLoaded ''img'')]))
       (stream_id (pf_event ?p)) =
      Some \<lparr> frameData = \<lparr> fd_frame = pf_event ?p,
                           imageUrl = orUndefined (fst (fetchImage (fr_id (pf_event ?p)) (ImageLoaded ''img2''))),
                           fd_detections = pf_frameDetections ?p \<rparr>,
             messageTimestamp = pf_messageTimestamp ?p \<rparr>"
    by blast
  then show ?thesis
    using g unfolding first_frame_shown by (simp add: frame1_def orUndefined_def)
qed

subsection \<open>Frames without detections\<close>

lemma untouched_text [simp]:
  "untouched f (s\<lparr> console := c \<rparr>) = untouched f s"
  "untouched f (s\<lparr> status := x \<rparr>) = untouched f s"
  "untouched f (s\<lparr> timers := t \<rparr>) = untouched f s"
  "untouched f (s\<lparr> eventSource := es \<rparr>) = untouched f s"
  "untouched f (s\<lparr> isLive := b \<rparr>) = untouched f s"
  "untouched f (s\<lparr> pendingFrames := pfm \<rparr>) = untouched f s"
  by (simp_all add: untouched_def)

lemma untouched_handleFrameEvent:
  "untouched f s \<Longrightarrow> untouched f (handleFrameEvent e ev s)"
  by (auto simp: handleFrameEvent_def untouched_def split: msg_data.split option.split)

lemma untouched_bufferDetection:
  "untouched f s \<Longrightarrow> frame_id d \<noteq> f \<Longrightarrow> untouched f (bufferDetection d s)"
  by (auto simp: bufferDetection_def untouched_def split: option.split)

lemma untouched_handleDetectionEvent:
  assumes "untouched f s" and "\<forall>d. ev = DetectionData d \<longrightarrow> frame_id d \<noteq> f"
  shows "untouched f (handleDetectionEvent e ev s)"
proof (cases ev)
  case (DetectionData d)
  with assms have "untouched f (bufferDetection d s)"
    by (simp add: untouched_bufferDetection)
  then have "untouched f (handleFrameEvent e ev' (bufferDetection d s))" for ev'
    by (rule untouched_handleFrameEvent)
  with DetectionData assms(1) \<open>untouched f (bufferDetection d s)\<close> show ?thesis
    by (simp add: handleDetectionEvent_def Let_def split: option.split)
qed (use assms in \<open>simp_all add: handleDetectionEvent_def\<close>)

lemma untouched_connect: "untouched f (connect b s) = untouched f s"
  by (simp add: connect_def Let_def untouched_def split: option.split)

lemma untouched_completeFrame:
  "untouched f s \<Longrightarrow> untouched f (completeFrame e p out s)"
  by (cases "isStale (pf_messageTimestamp p) (detections_map s (stream_id (pf_event p)))")
    (simp_all add: completeFrame_stale untouched_def completeFrame_fresh completeFrame_fields)

lemma untouched_step:
  assumes "untouched f s" and "\<not> detectionFor f ev"
  shows "untouched f (step e s ev)"
proof (cases ev)
  case (Message raw)
  show ?thesis
  proof (cases raw)
    case Malformed
    with Message assms show ?thesis
      by (simp add: step_def onmessage_def split: option.split)
  next
    case (Parsed m)
    have "untouched f (handleDetectionEvent e (msg_data m) s)" if "msg_type m = ''detection''"
      using assms that Message Parsed
      by (intro untouched_handleDetectionEvent) (auto simp: detectionFor_def)
    with Message Parsed assms(1) show ?thesis
      by (simp add: step_def onmessage_def untouched_handleFrameEvent split: option.split)
  qed
next
  case (FetchDone i out)
  have "untouched f (s\<lparr> fetches := drop_nth i (fetches s) \<rparr>)"
    using assms(1) set_drop_nth [of i "fetches s"] by (auto simp: untouched_def)
  with FetchDone assms(1) show ?thesis
    by (simp add: step_def untouched_completeFrame)
qed (use assms(1) in \<open>simp_all add: step_def onopen_def onerror_def reconnectCallback_def setLive_def
      effectBody_def effectCleanup_def untouched_connect split: option.split\<close>)

lemma step_slot_of_untouched:
  assumes "untouched f s" and "holdsFrame f (detections_map (step e s ev) k)"
  shows "detections_map (step e s ev) k = detections_map s k"
proof (cases "\<exists>i out. ev = FetchDone i out")
  case False
  then show ?thesis by (simp add: step_detections_map)
next
  case True
  then obtain i out where ev: "ev = FetchDone i out" by auto
  show ?thesis
  proof (cases "i < length (fetches s)")
    case False
    with ev show ?thesis by (simp add: step_def)
  next
    case True
    let ?p = "fetches s ! i" and ?s = "s\<lparr> fetches := drop_nth i (fetches s) \<rparr>"
    from True assms(1) have nf: "fr_id (pf_event ?p) \<noteq> f"
      by (simp add: untouched_def)
    show ?thesis
    proof (cases "isStale (pf_messageTimestamp ?p) (detections_map ?s (stream_id (pf_event ?p)))")
      case stale: True
      with ev True show ?thesis by (simp add: step_def completeFrame_stale)
    next
      case fresh: False
      with ev True assms(2) nf show ?thesis
        by (auto simp: step_def completeFrame_fresh holdsFrame_def makeCard_def split: if_splits)
    qed
  qed
qed

lemma run_slot_of_untouched:
  assumes "untouched f s" and "\<forall>ev \<in> set evs. \<not> detectionFor f ev"
  shows "untouched f (run e s evs) \<and>
    (\<forall>k. holdsFrame f (detections_map (run e s evs) k) \<longrightarrow>
          detections_map (run e s evs) k = detections_map s k)"
  using assms(2)
proof (induction evs rule: rev_induct)
  case Nil
  with assms(1) show ?case by (simp add: run_Nil)
next
  case (snoc ev evs)
  let ?s = "run e s evs"
  from snoc have ih: "untouched f ?s"
    "\<And>k. holdsFrame f (detections_map ?s k) \<Longrightarrow> detections_map ?s k = detections_map s k"
    by auto
  from snoc.prems have nd: "\<not> detectionFor f ev" by simp
  have r: "run e s (evs @ [ev]) = step e ?s ev"
    by (simp add: run_append run_Cons run_Nil)
  have "untouched f (step e ?s ev)"
    using ih(1) nd by (rule untouched_step)
  moreover have "detections_map (step e ?s ev) k = detections_map s k"
    if h: "holdsFrame f (detections_map (step e ?s ev) k)" for k
  proof -
    from step_slot_of_untouched [OF ih(1) h] have eq: "detections_map (step e ?s ev) k = detections_map ?s k" .
    with h have "holdsFrame f (detections_map ?s k)" by simp
    from ih(2) [OF this] eq show ?thesis by simp
  qed
  ultimately show ?case unfolding r by blast
qed

lemma frame_event_of_untouched:
  assumes "untouched f s" "fr_id fd = f" "f \<noteq> []" "stream_id fd \<noteq> []"
  shows "handleFrameEvent e (FrameEventData fd) s = s\<lparr> pendingFrames := (pendingFrames s)(f \<mapsto> fd) \<rparr>"
  using assms by (simp add: handleFrameEvent_def untouched_def)

text \<open>
  Claim C3. Take a frame id with no buffered detection and no suspended handler, and a
  run in which no detection of that frame arrives. Then a slot that shows the frame at
  the end of the run is a slot the run has not changed; in particular no slot shows it
  if none did before. And a frame event for that id, at any point of such a run, only
  stores the frame in the pending frames.
\<close>

theorem zero_detection_frame_never_shown:
  assumes "untouched f s" and "\<forall>ev \<in> set evs. \<not> detectionFor f ev"
  shows "(\<forall>k. holdsFrame f (detections_map (run e s evs) k) \<longrightarrow>
             detections_map (run e s evs) k = detections_map s k)
    \<and> ((\<forall>k. \<not> holdsFrame f (detections_map s k)) \<longrightarrow>
         (\<forall>k. \<not> holdsFrame f (detections_map (run e s evs) k)))
    \<and> (\<forall>fd :: frame_data. fr_id fd = f \<and> f \<noteq> [] \<and> stream_id fd \<noteq> [] \<longrightarrow>
         handleFrameEvent e (FrameEventData fd) (run e s evs) =
           (run e s evs)\<lparr> pendingFrames := (pendingFrames (run e s evs))(f \<mapsto> fd) \<rparr>)"
proof -
  note r = run_slot_of_untouched [OF assms, of e]
  from r have a: "\<forall>k. holdsFrame f (detections_map (run e s evs) k) \<longrightarrow>
             detections_map (run e s evs) k = detections_map s k"
    by blast
  from a have b: "(\<forall>k. \<not> holdsFrame f (detections_map s k)) \<longrightarrow>
         (\<forall>k. \<not> holdsFrame f (detections_map (run e s evs) k))"
    by metis
  from r have "untouched f (run e s evs)"
    by blast
  then have c: "\<forall>fd :: frame_data. fr_id fd = f \<and> f \<noteq> [] \<and> stream_id fd \<noteq> [] \<longrightarrow>
         handleFrameEvent e (FrameEventData fd) (run e s evs) =
           (run e s evs)\<lparr> pendingFrames := (pendingFrames (run e s evs))(f \<mapsto> fd) \<rparr>"
    by (simp add: frame_event_of_untouched)
  from a b c show ?thesis
    by blast
qed

theorem zero_detection_frame_never_shown_witness:
  "\<not> holdsFrame ''f1'' (detections_map (run sampleEnv mounted
         [frameMessage frame1, Opened, detectionMessage (truck\<lparr> frame_id := ''f2'' \<rparr>)]) ''cam1'')
   \<and> pendingFrames (run sampleEnv mounted
         [frameMessage frame1, Opened, detectionMessage (truck\<lparr> frame_id := ''f2'' \<rparr>)]) ''f1'' =
       Some frame1
   \<and> detections_map (run sampleEnv mounted
         [frameMessage frame1, Opened, detectionMessage (truck\<lparr> frame_id := ''f2'' \<rparr>)]) ''cam1'' =
       None"
proof -
  let ?evs = "[frameMessage frame1, Opened, detectionMessage (truck\<lparr> frame_id := ''f2'' \<rparr>)]"
  have h1: "untouched ''f1'' mounted"
    by (simp add: untouched_def mounted_eq)
  have h2: "\<forall>ev \<in> set ?evs. \<not> detectionFor ''f1'' ev"
    by (simp add: detectionFor_def frameMessage_def detectionMessage_def truck_def)
  have h3: "\<forall>k. \<not> holdsFrame ''f1'' (detections_map mounted k)"
    by (simp add: holdsFrame_def mounted_eq)
  from zero_detection_frame_never_shown [OF h1 h2, of sampleEnv] h3
  have "\<not> holdsFrame ''f1'' (detections_map (run sampleEnv mounted ?evs) ''cam1'')"
    by blast
  moreover have "pendingFrames (run sampleEnv mounted ?evs) ''f1'' = Some frame1"
    "detections_map (run sampleEnv mounted ?evs) ''cam1'' = None"
    by (simp_all add: model_defs onopen_def)
  ultimately show ?thesis
    by blast
qed

subsection \<open>The aggregates of completed frames\<close>

lemma frameId_addDetection [simp]: "frameId (addDetection fds d) = frameId fds"
  by (simp add: addDetection_def Let_def)

lemma frozen_text [simp]:
  "frozen (s\<lparr> console := c \<rparr>) a = frozen s a"
  "frozen (s\<lparr> status := x \<rparr>) a = frozen s a"
  "frozen (s\<lparr> timers := t \<rparr>) a = frozen s a"
  "frozen (s\<lparr> eventSource := es \<rparr>) a = frozen s a"
  "frozen (s\<lparr> isLive := b \<rparr>) a = frozen s a"
  "frozen (s\<lparr> pendingFrames := pfm \<rparr>) a = frozen s a"
  "frozen (s\<lparr> fetches := fs \<rparr>) a = frozen s a"
  by (simp_all add: frozen_def)

lemma heapInv_text [simp]:
  "heapInv (s\<lparr> console := c \<rparr>) = heapInv s"
  "heapInv (s\<lparr> status := x \<rparr>) = heapInv s"
  "heapInv (s\<lparr> timers := t \<rparr>) = heapInv s"
  "heapInv (s\<lparr> eventSource := es \<rparr>) = heapInv s"
  "heapInv (s\<lparr> isLive := b \<rparr>) = heapInv s"
  "heapInv (s\<lparr> pendingFrames := pfm \<rparr>) = heapInv s"
  by (simp_all add: heapInv_def)
















lemma settled_text [simp]:
  "settled f (s\<lparr> console := c \<rparr>) = settled f s"
  "settled f (s\<lparr> status := x \<rparr>) = settled f s"
  "settled f (s\<lparr> timers := t \<rparr>) = settled f s"
  "settled f (s\<lparr> eventSource := es \<rparr>) = settled f s"
  "settled f (s\<lparr> isLive := b \<rparr>) = settled f s"
  by (simp_all add: settled_def)











subsection \<open>Order of arrival\<close>

lemma detectionCount_addDetection: "detectionCount (addDetection x d) = Suc (length (detections x))"
  by (simp add: addDetection_def Let_def)

lemma detectionCount_foldl:
  "ds \<noteq> [] \<Longrightarrow> detectionCount (foldl addDetection x ds) \<noteq> 0"
proof (induction ds arbitrary: x rule: rev_induct)
  case Nil
  then show ?case by simp
next
  case (snoc d ds)
  show ?case by (simp add: detectionCount_addDetection)
qed

lemma step_first_detection:
  assumes "eventSource s \<noteq> None" "frame_id d \<noteq> []"
    "pendingDetections s (frame_id d) = None" "pendingFrames s (frame_id d) = None"
  shows "step e s (detectionMessage d) =
     s\<lparr> heap := heap s @ [addDetection (emptyFrameDetections (frame_id d)) d],
        pendingDetections := (pendingDetections s)(frame_id d \<mapsto> length (heap s)) \<rparr>"
  using assms
  by (auto simp: step_def detectionMessage_def onmessage_def handleDetectionEvent_def
      bufferDetection_None bufferDetection_fields Let_def)

lemma step_next_detection:
  assumes "eventSource s \<noteq> None" "frame_id d \<noteq> []"
    "pendingDetections s (frame_id d) = Some a" "pendingFrames s (frame_id d) = None"
  shows "step e s (detectionMessage d) = s\<lparr> heap := (heap s)[a := addDetection (heap s ! a) d] \<rparr>"
  using assms
  by (auto simp: step_def detectionMessage_def onmessage_def handleDetectionEvent_def
      bufferDetection_Some bufferDetection_fields Let_def)

lemma run_next_detections:
  assumes "eventSource s \<noteq> None" "f \<noteq> []" "pendingDetections s f = Some a" "pendingFrames s f = None"
    "a < length (heap s)" "\<forall>d \<in> set ds. frame_id d = f"
  shows "run e s (map detectionMessage ds) = s\<lparr> heap := (heap s)[a := foldl addDetection (heap s ! a) ds] \<rparr>"
  using assms
proof (induction ds arbitrary: s)
  case Nil
  then show ?case by (simp add: run_Nil)
next
  case (Cons d ds)
  let ?s = "s\<lparr> heap := (heap s)[a := addDetection (heap s ! a) d] \<rparr>"
  from Cons.prems have st: "step e s (detectionMessage d) = ?s"
    by (intro step_next_detection) auto
  from Cons.prems have "run e ?s (map detectionMessage ds) =
      ?s\<lparr> heap := (heap ?s)[a := foldl addDetection (heap ?s ! a) ds] \<rparr>"
    by (intro Cons.IH) auto
  with Cons.prems(5) show ?case
    by (simp add: run_Cons st)
qed

lemma step_frame_waits:
  assumes "eventSource s \<noteq> None" "fr_id fd \<noteq> []" "stream_id fd \<noteq> []"
    "pendingDetections s (fr_id fd) = None"
  shows "step e s (frameMessage fd) = s\<lparr> pendingFrames := (pendingFrames s)(fr_id fd \<mapsto> fd) \<rparr>"
  using assms
  by (auto simp: step_def frameMessage_def onmessage_def handleFrameEvent_def)

lemma step_frame_suspends:
  assumes "eventSource s \<noteq> None" "fr_id fd \<noteq> []" "stream_id fd \<noteq> []"
    "pendingDetections s (fr_id fd) = Some a" "detectionCount (heap s ! a) \<noteq> 0"
  shows "step e s (frameMessage fd) =
     s\<lparr> fetches := fetches s @ [\<lparr> pf_event = fd, pf_messageTimestamp = getTime e (fr_timestamp fd),
                                 pf_frameDetections = a \<rparr>] \<rparr>"
  using assms
  by (auto simp: step_def frameMessage_def onmessage_def handleFrameEvent_def)

lemma step_detection_wakes_frame:
  assumes "eventSource s \<noteq> None" "fr_id fd \<noteq> []" "stream_id fd \<noteq> []" "frame_id d = fr_id fd"
    "pendingDetections s (fr_id fd) = None" "pendingFrames s (fr_id fd) = Some fd"
  shows "step e s (detectionMessage d) =
     s\<lparr> heap := heap s @ [addDetection (emptyFrameDetections (fr_id fd)) d],
        pendingDetections := (pendingDetections s)(fr_id fd \<mapsto> length (heap s)),
        fetches := fetches s @ [\<lparr> pf_event = fd, pf_messageTimestamp = getTime e (fr_timestamp fd),
                                 pf_frameDetections = length (heap s) \<rparr>],
        pendingFrames := (pendingFrames s)(fr_id fd := None) \<rparr>"
  using assms
  by (auto simp: step_def detectionMessage_def onmessage_def handleDetectionEvent_def
      bufferDetection_None Let_def handleFrameEvent_def detectionCount_addDetection)

lemma detections_then_frame:
  assumes "eventSource s \<noteq> None" "ds \<noteq> []" "\<forall>d \<in> set ds. frame_id d = fr_id fd"
    "fr_id fd \<noteq> []" "stream_id fd \<noteq> []"
    "pendingDetections s (fr_id fd) = None" "pendingFrames s (fr_id fd) = None"
  shows "run e s (map detectionMessage ds @ [frameMessage fd]) =
     s\<lparr> heap := heap s @ [foldl addDetection (emptyFrameDetections (fr_id fd)) ds],
        pendingDetections := (pendingDetections s)(fr_id fd \<mapsto> length (heap s)),
        fetches := fetches s @ [suspended e fd s] \<rparr>"
proof -
  from assms(2) obtain d ds' where ds: "ds = d # ds'" by (cases ds) auto
  let ?f = "fr_id fd"
  let ?s1 = "s\<lparr> heap := heap s @ [addDetection (emptyFrameDetections ?f) d],
        pendingDetections := (pendingDetections s)(?f \<mapsto> length (heap s)) \<rparr>"
  from assms ds have 1: "step e s (detectionMessage d) = ?s1"
    using step_first_detection [of s d e] by simp
  have 2: "run e ?s1 (map detectionMessage ds') =
     ?s1\<lparr> heap := (heap ?s1)[length (heap s) := foldl addDetection (heap ?s1 ! length (heap s)) ds'] \<rparr>"
    using assms ds by (intro run_next_detections [where f = ?f]) auto
  let ?s2 = "s\<lparr> heap := heap s @ [foldl addDetection (emptyFrameDetections ?f) ds],
        pendingDetections := (pendingDetections s)(?f \<mapsto> length (heap s)) \<rparr>"
  have 3: "run e s (map detectionMessage ds) = ?s2"
    using 1 2 by (simp add: ds run_Cons)
  have "step e ?s2 (frameMessage fd) =
      ?s2\<lparr> fetches := fetches ?s2 @ [\<lparr> pf_event = fd, pf_messageTimestamp = getTime e (fr_timestamp fd),
                                 pf_frameDetections = length (heap s) \<rparr>] \<rparr>"
    using assms by (intro step_frame_suspends) (auto simp: detectionCount_foldl)
  then show ?thesis
    by (simp add: run_append 3 run_Cons run_Nil suspended_def)
qed

lemma frame_then_detections:
  assumes "eventSource s \<noteq> None" "ds \<noteq> []" "\<forall>d \<in> set ds. frame_id d = fr_id fd"
    "fr_id fd \<noteq> []" "stream_id fd \<noteq> []"
    "pendingDetections s (fr_id fd) = None" "pendingFrames s (fr_id fd) = None"
  shows "run e s (frameMessage fd # map detectionMessage ds) =
     s\<lparr> heap := heap s @ [foldl addDetection (emptyFrameDetections (fr_id fd)) ds],
        pendingDetections := (pendingDetections s)(fr_id fd \<mapsto> length (heap s)),
        fetches := fetches s @ [suspended e fd s] \<rparr>"
proof -
  from assms(2) obtain d ds' where ds: "ds = d # ds'" by (cases ds) auto
  let ?f = "fr_id fd"
  let ?s0 = "s\<lparr> pendingFrames := (pendingFrames s)(?f \<mapsto> fd) \<rparr>"
  from assms have 0: "step e s (frameMessage fd) = ?s0"
    by (intro step_frame_waits) auto
  let ?s1 = "s\<lparr> heap := heap s @ [addDetection (emptyFrameDetections ?f) d],
        pendingDetections := (pendingDetections s)(?f \<mapsto> length (heap s)),
        fetches := fetches s @ [suspended e fd s] \<rparr>"
  have pf: "(pendingFrames s)(?f := None) = pendingFrames s"
    using assms(7) by (simp add: fun_upd_idem)
  have "step e ?s0 (detectionMessage d) =
     ?s0\<lparr> heap := heap ?s0 @ [addDetection (emptyFrameDetections ?f) d],
        pendingDetections := (pendingDetections ?s0)(?f \<mapsto> length (heap ?s0)),
        fetches := fetches ?s0 @ [\<lparr> pf_event = fd, pf_messageTimestamp = getTime e (fr_timestamp fd),
                                 pf_frameDetections = length (heap ?s0) \<rparr>],
        pendingFrames := (pendingFrames ?s0)(?f := None) \<rparr>"
    using assms ds by (intro step_detection_wakes_frame) auto
  then have 1: "step e ?s0 (detectionMessage d) = ?s1"
    by (simp add: pf suspended_def)
  have 2: "run e ?s1 (map detectionMessage ds') =
     ?s1\<lparr> heap := (heap ?s1)[length (heap s) := foldl addDetection (heap ?s1 ! length (heap s)) ds'] \<rparr>"
    using assms ds by (intro run_next_detections [where f = ?f]) auto
  show ?thesis
    using 0 1 2 by (simp add: ds run_Cons)
qed

lemma fetch_done_last:
  "step e (s\<lparr> fetches := fs @ [p] \<rparr>) (FetchDone (length fs) out) = completeFrame e p out (s\<lparr> fetches := fs \<rparr>)"
  by (simp add: step_def drop_nth_def)

text \<open>
  Claim C1, as stated: the detections and the frame event of a frame give the same
  completed frame in either order. A frame that arrived first is suspended on its first
  detection and is completed with the aggregate as it is when its image request ends; a
  detection delivered after that is left out. With the detections first the card of
  the stream shows truck and car, with the frame first and the car delivered after the
  image it shows the truck alone.
\<close>

theorem late_detection_left_out:
  "map_option (fd_detections \<circ> frameData) (detections_map (run sampleEnv mounted
      [detectionMessage truck, detectionMessage car, frameMessage frame1,
       FetchDone 0 (ImageLoaded ''img'')]) ''cam1'') = Some 0
   \<and> map sd_label (detections (heap (run sampleEnv mounted
      [detectionMessage truck, detectionMessage car, frameMessage frame1,
       FetchDone 0 (ImageLoaded ''img'')]) ! 0)) = [''truck'', ''car'']
   \<and> labels (heap (run sampleEnv mounted
      [detectionMessage truck, detectionMessage car, frameMessage frame1,
       FetchDone 0 (ImageLoaded ''img'')]) ! 0) ''car'' = Some (55 / 100)
   \<and> map_option (fd_detections \<circ> frameData) (detections_map (run sampleEnv mounted
      [frameMessage frame1, detectionMessage truck, FetchDone 0 (ImageLoaded ''img''),
       detectionMessage car]) ''cam1'') = Some 0
   \<and> map sd_label (detections (heap (run sampleEnv mounted
      [frameMessage frame1, detectionMessage truck, FetchDone 0 (ImageLoaded ''img''),
       detectionMessage car]) ! 0)) = [''truck'']
   \<and> labels (heap (run sampleEnv mounted
      [frameMessage frame1, detectionMessage truck, FetchDone 0 (ImageLoaded ''img''),
       detectionMessage car]) ! 0) ''car'' = None"
  by (simp add: model_defs)

text \<open>
  Claim C1, amended. Take a frame with no buffered detection and no waiting frame event.
  Its detections followed by its frame event, and its frame event followed by its
  detections, lead to the same state: one suspended handler for the frame, holding the
  aggregate of all the detections in their order. When the image request then ends, the
  two orders give the same state again: the handler is gone, and unless the frame is
  stale the slot of its stream holds the frame with that aggregate.
\<close>

theorem order_independent_until_fetch_ends:
  assumes "eventSource s \<noteq> None" and "ds \<noteq> []" and "\<forall>d \<in> set ds. frame_id d = fr_id fd"
    and "fr_id fd \<noteq> []" and "stream_id fd \<noteq> []"
    and "pendingDetections s (fr_id fd) = None" and "pendingFrames s (fr_id fd) = None"
  shows "run e s (frameMessage fd # map detectionMessage ds) =
         run e s (map detectionMessage ds @ [frameMessage fd])
    \<and> fetches (run e s (map detectionMessage ds @ [frameMessage fd])) =
        fetches s @ [suspended e fd s]
    \<and> heap (run e s (map detectionMessage ds @ [frameMessage fd])) =
        heap s @ [foldl addDetection (emptyFrameDetections (fr_id fd)) ds]
    \<and> (\<forall>out. run e s (frameMessage fd # map detectionMessage ds
                      @ [FetchDone (length (fetches s)) out]) =
              run e s (map detectionMessage ds
                      @ [frameMessage fd, FetchDone (length (fetches s)) out]))
    \<and> (\<forall>out. fetches (run e s (map detectionMessage ds
                      @ [frameMessage fd, FetchDone (length (fetches s)) out])) = fetches s
          \<and> heap (run e s (map detectionMessage ds
                      @ [frameMessage fd, FetchDone (length (fetches s)) out])) =
              heap s @ [foldl addDetection (emptyFrameDetections (fr_id fd)) ds]
          \<and> (\<not> isStale (getTime e (fr_timestamp fd)) (detections_map s (stream_id fd)) \<longrightarrow>
               detections_map (run e s (map detectionMessage ds
                      @ [frameMessage fd, FetchDone (length (fetches s)) out])) (stream_id fd) =
                 Some (makeCard (suspended e fd s) (fst (fetchImage (fr_id fd) out)))))"
proof -
  let ?X = "s\<lparr> heap := heap s @ [foldl addDetection (emptyFrameDetections (fr_id fd)) ds],
        pendingDetections := (pendingDetections s)(fr_id fd \<mapsto> length (heap s)),
        fetches := fetches s @ [suspended e fd s] \<rparr>"
  let ?Y = "s\<lparr> heap := heap s @ [foldl addDetection (emptyFrameDetections (fr_id fd)) ds],
        pendingDetections := (pendingDetections s)(fr_id fd \<mapsto> length (heap s)),
        fetches := fetches s \<rparr>"
  have A: "run e s (map detectionMessage ds @ [frameMessage fd]) = ?X"
    using assms by (rule detections_then_frame)
  have B: "run e s (frameMessage fd # map detectionMessage ds) = ?X"
    using assms by (rule frame_then_detections)
  have fin: "step e ?X (FetchDone (length (fetches s)) out) =
      completeFrame e (suspended e fd s) out ?Y" for out
    using fetch_done_last [where e = e and fs = "fetches s" and p = "suspended e fd s" and out = out
        and s = "s\<lparr> heap := heap s @ [foldl addDetection (emptyFrameDetections (fr_id fd)) ds],
          pendingDetections := (pendingDetections s)(fr_id fd \<mapsto> length (heap s)) \<rparr>"]
    by simp
  have A': "run e s (map detectionMessage ds @ [frameMessage fd, FetchDone (length (fetches s)) out]) =
      completeFrame e (suspended e fd s) out ?Y" for out
  proof -
    have "run e s (map detectionMessage ds @ [frameMessage fd, FetchDone (length (fetches s)) out]) =
        run e s ((map detectionMessage ds @ [frameMessage fd]) @ [FetchDone (length (fetches s)) out])"
      by simp
    also have "\<dots> = run e (run e s (map detectionMessage ds @ [frameMessage fd]))
        [FetchDone (length (fetches s)) out]"
      by (rule run_append)
    also have "\<dots> = run e ?X [FetchDone (length (fetches s)) out]"
      by (simp only: A)
    also have "\<dots> = step e ?X (FetchDone (length (fetches s)) out)"
      by (simp add: run_Cons run_Nil)
    finally show ?thesis
      by (simp only: fin)
  qed
  have B': "run e s (frameMessage fd # map detectionMessage ds @ [FetchDone (length (fetches s)) out]) =
      completeFrame e (suspended e fd s) out ?Y" for out
  proof -
    have "run e s (frameMessage fd # map detectionMessage ds @ [FetchDone (length (fetches s)) out]) =
        run e s ((frameMessage fd # map detectionMessage ds) @ [FetchDone (length (fetches s)) out])"
      by simp
    also have "\<dots> = run e (run e s (frameMessage fd # map detectionMessage ds))
        [FetchDone (length (fetches s)) out]"
      by (rule run_append)
    also have "\<dots> = run e ?X [FetchDone (length (fetches s)) out]"
      by (simp only: B)
    also have "\<dots> = step e ?X (FetchDone (length (fetches s)) out)"
      by (simp add: run_Cons run_Nil)
    finally show ?thesis
      by (simp only: fin)
  qed
  have slot: "detections_map (completeFrame e (suspended e fd s) out ?Y) (stream_id fd) =
      Some (makeCard (suspended e fd s) (fst (fetchImage (fr_id fd) out)))"
    if "\<not> isStale (getTime e (fr_timestamp fd)) (detections_map s (stream_id fd))" for out
  proof -
    from that have
      "\<not> isStale (pf_messageTimestamp (suspended e fd s))
           (detections_map ?Y (stream_id (pf_event (suspended e fd s))))"
      by (simp add: suspended_def)
    from completeFrame_fresh(1) [OF this, of e out] show ?thesis
      by (simp add: suspended_def)
  qed
  show ?thesis
    unfolding A B A' B' using slot by (simp add: completeFrame_fields)
qed

theorem order_independent_until_fetch_ends_witness:
  "run sampleEnv mounted
     [frameMessage frame1, detectionMessage truck, detectionMessage car,
      FetchDone 0 (ImageLoaded ''img'')] =
   run sampleEnv mounted
     [detectionMessage truck, detectionMessage car, frameMessage frame1,
      FetchDone 0 (ImageLoaded ''img'')]
   \<and> map sd_label (detections (heap (run sampleEnv mounted
     [frameMessage frame1, detectionMessage truck, detectionMessage car,
      FetchDone 0 (ImageLoaded ''img'')]) ! 0)) = [''truck'', ''car'']
   \<and> fetches (run sampleEnv mounted
     [frameMessage frame1, detectionMessage truck, detectionMessage car]) =
       [\<lparr> pf_event = frame1, pf_messageTimestamp = Some 1735689600000, pf_frameDetections = 0 \<rparr>]"
proof -
  have h: "eventSource mounted \<noteq> None" "[truck, car] \<noteq> []"
    "\<forall>d \<in> set [truck, car]. frame_id d = fr_id frame1"
    "fr_id frame1 \<noteq> []" "stream_id frame1 \<noteq> []"
    "pendingDetections mounted (fr_id frame1) = None" "pendingFrames mounted (fr_id frame1) = None"
    by (simp_all add: mounted_eq truck_def car_def frame1_def)
  note t = order_independent_until_fetch_ends [OF h, of sampleEnv]
  have f0: "length (fetches mounted) = 0"
    by (simp add: mounted_eq)
  from t have eq: "run sampleEnv mounted
     (frameMessage frame1 # map detectionMessage [truck, car]
        @ [FetchDone (length (fetches mounted)) (ImageLoaded ''img'')]) =
   run sampleEnv mounted
     (map detectionMessage [truck, car]
        @ [frameMessage frame1, FetchDone (length (fetches mounted)) (ImageLoaded ''img'')])"
    by blast
  from t have hp: "heap (run sampleEnv mounted (map detectionMessage [truck, car]
        @ [frameMessage frame1, FetchDone (length (fetches mounted)) (ImageLoaded ''img'')])) =
      heap mounted @ [foldl addDetection (emptyFrameDetections (fr_id frame1)) [truck, car]]"
    by blast
  from t have ft: "fetches (run sampleEnv mounted (frameMessage frame1 # map detectionMessage [truck, car])) =
      fetches mounted @ [suspended sampleEnv frame1 mounted]"
    by simp
  have 1: "run sampleEnv mounted
     [frameMessage frame1, detectionMessage truck, detectionMessage car,
      FetchDone 0 (ImageLoaded ''img'')] =
   run sampleEnv mounted
     [detectionMessage truck, detectionMessage car, frameMessage frame1,
      FetchDone 0 (ImageLoaded ''img'')]"
    using eq by (simp add: f0)
  have 2: "map sd_label (detections (heap (run sampleEnv mounted
     [detectionMessage truck, detectionMessage car, frameMessage frame1,
      FetchDone 0 (ImageLoaded ''img'')]) ! 0)) = [''truck'', ''car'']"
    using hp by (simp add: f0 mounted_eq addDetection_def emptyFrameDetections_def Let_def
        truck_def car_def)
  have 3: "fetches (run sampleEnv mounted
     [frameMessage frame1, detectionMessage truck, detectionMessage car]) =
       [\<lparr> pf_event = frame1, pf_messageTimestamp = Some 1735689600000, pf_frameDetections = 0 \<rparr>]"
    using ft by (simp add: suspended_def mounted_eq sampleEnv_def frame1_def)
  from 1 2 3 show ?thesis
    by simp
qed

subsection \<open>Image requests that fail\<close>

lemma detections_foldl:
  "detections (foldl addDetection x ds) =
     detections x @
     map (\<lambda>d. \<lparr> sd_id = det_id d, sd_label = label d, sd_class_id = class_id d,
                 sd_confidence = confidence d, sd_bbox = bbox d,
                 sd_timestamp = det_timestamp d \<rparr>) ds"
  by (induction ds arbitrary: x) (simp_all add: addDetection_def Let_def)

lemma detections_frame_fetch:
  assumes "eventSource s \<noteq> None" "ds \<noteq> []" "\<forall>d \<in> set ds. frame_id d = fr_id fd"
    "fr_id fd \<noteq> []" "stream_id fd \<noteq> []"
    "pendingDetections s (fr_id fd) = None" "pendingFrames s (fr_id fd) = None"
  shows "run e s (map detectionMessage ds @ [frameMessage fd, FetchDone (length (fetches s)) out]) =
     completeFrame e (suspended e fd s) out
       (s\<lparr> heap := heap s @ [foldl addDetection (emptyFrameDetections (fr_id fd)) ds],
          pendingDetections := (pendingDetections s)(fr_id fd \<mapsto> length (heap s)) \<rparr>)"
proof -
  let ?X = "s\<lparr> heap := heap s @ [foldl addDetection (emptyFrameDetections (fr_id fd)) ds],
        pendingDetections := (pendingDetections s)(fr_id fd \<mapsto> length (heap s)),
        fetches := fetches s @ [suspended e fd s] \<rparr>"
  let ?Z = "s\<lparr> heap := heap s @ [foldl addDetection (emptyFrameDetections (fr_id fd)) ds],
        pendingDetections := (pendingDetections s)(fr_id fd \<mapsto> length (heap s)) \<rparr>"
  have A: "run e s (map detectionMessage ds @ [frameMessage fd]) = ?X"
    using assms by (rule detections_then_frame)
  have "run e s (map detectionMessage ds @ [frameMessage fd, FetchDone (length (fetches s)) out]) =
      run e s ((map detectionMessage ds @ [frameMessage fd]) @ [FetchDone (length (fetches s)) out])"
    by simp
  also have "\<dots> = run e (run e s (map detectionMessage ds @ [frameMessage fd]))
      [FetchDone (length (fetches s)) out]"
    by (rule run_append)
  also have "\<dots> = run e ?X [FetchDone (length (fetches s)) out]"
    by (simp only: A)
  also have "\<dots> = step e ?X (FetchDone (length (fetches s)) out)"
    by (simp add: run_Cons run_Nil)
  also have "\<dots> = completeFrame e (suspended e fd s) out ?Z"
    using fetch_done_last [where e = e and fs = "fetches s" and p = "suspended e fd s"
        and out = out and s = ?Z]
    by simp
  finally show ?thesis .
qed


text \<open>
  Claim C7. When the image request of a completing frame fails (response not ok, network
  error, blob read error) the failure is logged, and the frame is completed as it would
  have been with an image. The completion leaves every aggregate of the store as it
  was; unless the frame is stale it is stored in the slot of its stream, without an
  image and with the aggregate the suspended handler held; and for every key the frame,
  detections and timestamp in the slot map, the pending detections and the store are
  those a successful request would have left. From the messages on: after the
  detections of a frame, its frame event and the failure of its image request, the
  slot of the stream shows the frame with all these detections, in their order.
\<close>

theorem image_failure_still_completes:
  assumes "isFailure out"
  shows "snd (fetchImage (fr_id (pf_event p)) out) \<noteq> []
    \<and> console (completeFrame e p out s) =
        console s @ snd (fetchImage (fr_id (pf_event p)) out)
    \<and> (\<not> isStale (pf_messageTimestamp p) (detections_map s (stream_id (pf_event p))) \<longrightarrow>
         detections_map (completeFrame e p out s) (stream_id (pf_event p)) =
           Some \<lparr> frameData = \<lparr> fd_frame = pf_event p, imageUrl = None,
                                fd_detections = pf_frameDetections p \<rparr>,
                  messageTimestamp = pf_messageTimestamp p \<rparr>)
    \<and> (\<forall>u k. map_option cardData (detections_map (completeFrame e p out s) k) =
              map_option cardData (detections_map (completeFrame e p (ImageLoaded u) s) k))
    \<and> (\<forall>u. pendingDetections (completeFrame e p out s) =
              pendingDetections (completeFrame e p (ImageLoaded u) s)
           \<and> heap (completeFrame e p out s) = heap (completeFrame e p (ImageLoaded u) s))
    \<and> heap (completeFrame e p out s) = heap s
    \<and> (\<forall>i. i < length (fetches s) \<longrightarrow> heap (step e s (FetchDone i out)) = heap s)
    \<and> (\<forall>(ds :: detection_data list) (fd :: frame_data) (s0 :: state).
          eventSource s0 \<noteq> None \<and> ds \<noteq> [] \<and> (\<forall>d \<in> set ds. frame_id d = fr_id fd)
          \<and> fr_id fd \<noteq> [] \<and> stream_id fd \<noteq> []
          \<and> pendingDetections s0 (fr_id fd) = None \<and> pendingFrames s0 (fr_id fd) = None
          \<and> \<not> isStale (getTime e (fr_timestamp fd)) (detections_map s0 (stream_id fd)) \<longrightarrow>
          detections_map (run e s0 (map detectionMessage ds
              @ [frameMessage fd, FetchDone (length (fetches s0)) out])) (stream_id fd) =
            Some \<lparr> frameData = \<lparr> fd_frame = fd, imageUrl = None,
                                 fd_detections = length (heap s0) \<rparr>,
                   messageTimestamp = getTime e (fr_timestamp fd) \<rparr>
          \<and> detections (heap (run e s0 (map detectionMessage ds
              @ [frameMessage fd, FetchDone (length (fetches s0)) out])) ! length (heap s0)) =
            map (\<lambda>d. \<lparr> sd_id = det_id d, sd_label = label d, sd_class_id = class_id d,
                        sd_confidence = confidence d, sd_bbox = bbox d,
                        sd_timestamp = det_timestamp d \<rparr>) ds
          \<and> detectionCount (heap (run e s0 (map detectionMessage ds
              @ [frameMessage fd, FetchDone (length (fetches s0)) out])) ! length (heap s0)) =
            length ds)"
proof -
  from assms have f: "fst (fetchImage i out) = None" "snd (fetchImage i out) \<noteq> []" for i
    by (cases out; simp add: isFailure_def)+
  have local: "snd (fetchImage (fr_id (pf_event p)) out) \<noteq> []
    \<and> console (completeFrame e p out s) =
        console s @ snd (fetchImage (fr_id (pf_event p)) out)
    \<and> (\<not> isStale (pf_messageTimestamp p) (detections_map s (stream_id (pf_event p))) \<longrightarrow>
         detections_map (completeFrame e p out s) (stream_id (pf_event p)) =
           Some \<lparr> frameData = \<lparr> fd_frame = pf_event p, imageUrl = None,
                                fd_detections = pf_frameDetections p \<rparr>,
                  messageTimestamp = pf_messageTimestamp p \<rparr>)
    \<and> (\<forall>u k. map_option cardData (detections_map (completeFrame e p out s) k) =
              map_option cardData (detections_map (completeFrame e p (ImageLoaded u) s) k))
    \<and> (\<forall>u. pendingDetections (completeFrame e p out s) =
              pendingDetections (completeFrame e p (ImageLoaded u) s)
           \<and> heap (completeFrame e p out s) = heap (completeFrame e p (ImageLoaded u) s))"
  proof (cases "isStale (pf_messageTimestamp p) (detections_map s (stream_id (pf_event p)))")
    case True
    then show ?thesis
      using f by (simp add: completeFrame_stale)
  next
    case False
    then show ?thesis
      using f
      by (simp add: completeFrame_fresh completeFrame_fields makeCard_def orUndefined_def
          cardData_def)
  qed
  have hp: "heap (completeFrame e p out s) = heap s"
    by (simp add: completeFrame_fields)
  have st: "\<forall>i. i < length (fetches s) \<longrightarrow> heap (step e s (FetchDone i out)) = heap s"
    by (simp add: step_def completeFrame_fields)
  have runs: "detections_map (run e s0 (map detectionMessage ds
              @ [frameMessage fd, FetchDone (length (fetches s0)) out])) (stream_id fd) =
            Some \<lparr> frameData = \<lparr> fd_frame = fd, imageUrl = None,
                                 fd_detections = length (heap s0) \<rparr>,
                   messageTimestamp = getTime e (fr_timestamp fd) \<rparr>
          \<and> detections (heap (run e s0 (map detectionMessage ds
              @ [frameMessage fd, FetchDone (length (fetches s0)) out])) ! length (heap s0)) =
            map (\<lambda>d. \<lparr> sd_id = det_id d, sd_label = label d, sd_class_id = class_id d,
                        sd_confidence = confidence d, sd_bbox = bbox d,
                        sd_timestamp = det_timestamp d \<rparr>) ds
          \<and> detectionCount (heap (run e s0 (map detectionMessage ds
              @ [frameMessage fd, FetchDone (length (fetches s0)) out])) ! length (heap s0)) =
            length ds"
    if h: "eventSource s0 \<noteq> None \<and> ds \<noteq> [] \<and> (\<forall>d \<in> set ds. frame_id d = fr_id fd)
          \<and> fr_id fd \<noteq> [] \<and> stream_id fd \<noteq> []
          \<and> pendingDetections s0 (fr_id fd) = None \<and> pendingFrames s0 (fr_id fd) = None
          \<and> \<not> isStale (getTime e (fr_timestamp fd)) (detections_map s0 (stream_id fd))"
    for ds :: "detection_data list" and fd :: frame_data and s0 :: state
  proof -
    let ?Z = "s0\<lparr> heap := heap s0 @ [foldl addDetection (emptyFrameDetections (fr_id fd)) ds],
          pendingDetections := (pendingDetections s0)(fr_id fd \<mapsto> length (heap s0)) \<rparr>"
    let ?p = "suspended e fd s0"
    from h have r: "run e s0 (map detectionMessage ds
              @ [frameMessage fd, FetchDone (length (fetches s0)) out]) =
        completeFrame e ?p out ?Z"
      by (intro detections_frame_fetch) auto
    from h have "\<not> isStale (pf_messageTimestamp ?p) (detections_map ?Z (stream_id (pf_event ?p)))"
      by (simp add: suspended_def)
    from completeFrame_fresh(1) [OF this, of e out]
    have slot: "detections_map (completeFrame e ?p out ?Z) (stream_id fd) =
        Some \<lparr> frameData = \<lparr> fd_frame = fd, imageUrl = None, fd_detections = length (heap s0) \<rparr>,
               messageTimestamp = getTime e (fr_timestamp fd) \<rparr>"
      by (simp add: suspended_def makeCard_def orUndefined_def f)
    have cell: "heap (completeFrame e ?p out ?Z) ! length (heap s0) =
        foldl addDetection (emptyFrameDetections (fr_id fd)) ds"
      by (simp add: completeFrame_fields)
    from h obtain d ds' where ds: "ds = ds' @ [d]"
      by (cases ds rule: rev_cases) auto
    have cnt: "detectionCount (foldl addDetection (emptyFrameDetections (fr_id fd)) ds) = length ds"
      by (simp add: ds detectionCount_addDetection detections_foldl emptyFrameDetections_def)
    show ?thesis
      unfolding r cell using slot cnt
      by (simp add: detections_foldl emptyFrameDetections_def)
  qed
  from local hp st runs show ?thesis
    by blast
qed

theorem image_failure_still_completes_witness:
  "isFailure (ResponseNotOk ''Not Found'')
   \<and> detections_map (run sampleEnv mounted
        [detectionMessage truck, frameMessage frame1, FetchDone 0 (ResponseNotOk ''Not Found'')])
        ''cam1'' =
      Some \<lparr> frameData = \<lparr> fd_frame = frame1, imageUrl = None, fd_detections = 0 \<rparr>,
             messageTimestamp = Some 1735689600000 \<rparr>
   \<and> map sd_label (detections (heap (run sampleEnv mounted
        [detectionMessage truck, frameMessage frame1, FetchDone 0 (ResponseNotOk ''Not Found'')])
        ! 0)) = [''truck'']
   \<and> detectionCount (heap (run sampleEnv mounted
        [detectionMessage truck, frameMessage frame1, FetchDone 0 (ResponseNotOk ''Not Found'')])
        ! 0) = 1"
proof -
  let ?out = "ResponseNotOk ''Not Found''"
  let ?run = "run sampleEnv mounted
        (map detectionMessage [truck] @ [frameMessage frame1, FetchDone (length (fetches mounted)) ?out])"
  have h: "isFailure ?out"
    by (simp add: isFailure_def)
  have pre: "eventSource mounted \<noteq> None \<and> [truck] \<noteq> [] \<and> (\<forall>d \<in> set [truck]. frame_id d = fr_id frame1)
          \<and> fr_id frame1 \<noteq> [] \<and> stream_id frame1 \<noteq> []
          \<and> pendingDetections mounted (fr_id frame1) = None \<and> pendingFrames mounted (fr_id frame1) = None
          \<and> \<not> isStale (getTime sampleEnv (fr_timestamp frame1)) (detections_map mounted (stream_id frame1))"
    by (simp add: mounted_eq truck_def frame1_def isStale_def)
  from image_failure_still_completes [OF h, of _ sampleEnv] pre
  have "detections_map ?run (stream_id frame1) =
            Some \<lparr> frameData = \<lparr> fd_frame = frame1, imageUrl = None,
                                 fd_detections = length (heap mounted) \<rparr>,
                   messageTimestamp = getTime sampleEnv (fr_timestamp frame1) \<rparr>
          \<and> detections (heap ?run ! length (heap mounted)) =
            map (\<lambda>d. \<lparr> sd_id = det_id d, sd_label = label d, sd_class_id = class_id d,
                        sd_confidence = confidence d, sd_bbox = bbox d,
                        sd_timestamp = det_timestamp d \<rparr>) [truck]
          \<and> detectionCount (heap ?run ! length (heap mounted)) = length [truck]"
    by blast
  moreover have "length (heap mounted) = 0" "length (fetches mounted) = 0"
    "stream_id frame1 = ''cam1''" "getTime sampleEnv (fr_timestamp frame1) = Some 1735689600000"
    by (simp_all add: mounted_eq frame1_def sampleEnv_def)
  ultimately show ?thesis
    using h by (simp add: truck_def)
qed

subsection \<open>Reconnecting\<close>

lemma liveClosures_onmessage: "liveClosures (onmessage e raw s) = liveClosures s"
  by (simp add: liveClosures_def onmessage_def handleDetectionEvent_fields handleFrameEvent_fields
      split: payload.split)

lemma liveClosures_step:
  assumes "liveClosures s"
  shows "liveClosures (step e s ev)"
proof (cases ev)
  case (Message raw)
  with assms show ?thesis
    by (simp add: step_def liveClosures_onmessage split: option.split)
next
  case (FetchDone i out)
  with assms show ?thesis
    by (simp add: step_def liveClosures_def completeFrame_fields)
next
  case (TimerFired i)
  have "set (drop_nth i (timers s)) \<subseteq> set (timers s)"
    by (rule set_drop_nth)
  with TimerFired assms show ?thesis
    by (auto simp: step_def liveClosures_def reconnectCallback_def connect_def Let_def
        split: option.split)
qed (use assms in \<open>auto simp: step_def liveClosures_def onopen_def onerror_def setLive_def
      effectBody_def effectCleanup_def connect_def Let_def split: option.split\<close>)

lemma liveClosures_run: "liveClosures (run e mounted evs)"
proof (rule run_invariant)
  show "liveClosures mounted"
    by (simp add: liveClosures_def mounted_eq)
qed (rule liveClosures_step)

lemma step_error:
  assumes "eventSource s = Some es"
  shows "step e s (Errored fatal) = 
     s\<lparr> eventSource := Some (es\<lparr> es_readyState := (if fatal then CLOSED else CONNECTING) \<rparr>),
        console := console s @ [''SSE error:''],
        status := ''Connection error - reconnecting...'',
        timers := timers s @ [\<lparr> tm_delay = 1000, tm_isLive = es_isLive es \<rparr>] \<rparr>"
  using assms by (simp add: step_def onerror_def)

lemma step_timer:
  assumes "i < length (timers s)"
  shows "step e s (TimerFired i) =
    (if (\<exists>es. eventSource s = Some es \<and> es_readyState es = CLOSED) \<and> tm_isLive (timers s ! i)
     then connect True (s\<lparr> timers := drop_nth i (timers s) \<rparr>)
     else s\<lparr> timers := drop_nth i (timers s) \<rparr>)"
  using assms by (auto simp: step_def reconnectCallback_def split: option.split)

lemma paused_step:
  assumes "eventSource s = None" "\<not> isLive s" "ev \<noteq> SetLive True"
  shows "eventSource (step e s ev) = None \<and> \<not> isLive (step e s ev)"
proof (cases ev)
  case (FetchDone i out)
  with assms show ?thesis by (simp add: step_def completeFrame_fields)
next
  case (SetLive b)
  with assms have "b = False" by simp
  with SetLive assms show ?thesis by (simp add: step_def setLive_def)
qed (use assms in \<open>simp_all add: step_def reconnectCallback_def\<close>)

lemma paused_run:
  assumes "eventSource s = None" "\<not> isLive s" "SetLive True \<notin> set evs"
  shows "eventSource (run e s evs) = None \<and> \<not> isLive (run e s evs)"
  using assms
proof (induction evs arbitrary: s)
  case Nil
  then show ?case by (simp add: run_Nil)
next
  case (Cons ev evs)
  from Cons.prems have "eventSource (step e s ev) = None \<and> \<not> isLive (step e s ev)"
    by (intro paused_step) auto
  with Cons.IH [of "step e s ev"] Cons.prems(3) show ?case
    by (simp add: run_Cons)
qed

lemma pause_clears:
  assumes "isLive s"
  shows "eventSource (step e s (SetLive False)) = None \<and> \<not> isLive (step e s (SetLive False))
     \<and> status (step e s (SetLive False)) = ''Paused''"
  using assms by (simp add: step_def setLive_def effectBody_def effectCleanup_def split: option.split)

text \<open>
  Claim C9, as stated: after a transport error a \<^verbatim>\<open>connect()\<close> call follows the delay,
  provided the component is still live and the connection is neither closed nor
  reopening. The callback tests \<^verbatim>\<open>readyState === EventSource.CLOSED\<close>: it calls
  \<^verbatim>\<open>connect\<close> only for a source the browser has closed. After an error from which the
  browser recovers by itself (the source is open again when the timer fires, the
  component is live) the callback does nothing; after an error that left the source
  closed it connects.
\<close>

theorem reconnect_only_when_closed:
  "isLive (run sampleEnv mounted [Opened, Errored False, Opened])
   \<and> eventSource (run sampleEnv mounted [Opened, Errored False, Opened]) =
       Some \<lparr> es_readyState = OPEN, es_isLive = True \<rparr>
   \<and> timers (run sampleEnv mounted [Opened, Errored False, Opened]) =
       [\<lparr> tm_delay = 1000, tm_isLive = True \<rparr>]
   \<and> run sampleEnv mounted [Opened, Errored False, Opened, TimerFired 0] =
       (run sampleEnv mounted [Opened, Errored False, Opened])\<lparr> timers := [] \<rparr>
   \<and> status (run sampleEnv mounted [Opened, Errored False, Opened, TimerFired 0]) = ''Connected''
   \<and> eventSource (run sampleEnv mounted [Opened, Errored True]) =
       Some \<lparr> es_readyState = CLOSED, es_isLive = True \<rparr>
   \<and> status (run sampleEnv mounted [Opened, Errored True, TimerFired 0]) = ''Connecting...''
   \<and> eventSource (run sampleEnv mounted [Opened, Errored True, TimerFired 0]) =
       Some \<lparr> es_readyState = CONNECTING, es_isLive = True \<rparr>"
  by (simp add: run_def step_def onopen_def onerror_def reconnectCallback_def drop_nth_def
      mounted_eq connect_def)

text \<open>
  Claim C9, amended. An error of the event source sets the status to the reconnecting
  message and schedules a callback with a delay of 1000 ms. When the callback runs it
  calls \<^verbatim>\<open>connect\<close> exactly if the reference still holds an event source and that source
  is closed (the captured \<^verbatim>\<open>isLive\<close> is true in every reachable state). Pausing clears
  the reference, and until the component is set live again it stays cleared: a callback
  that runs then only disappears.
\<close>

theorem reconnect_after_error:
  assumes "eventSource s = Some es"
  shows "status (step e s (Errored fatal)) = ''Connection error - reconnecting...''
    \<and> timers (step e s (Errored fatal)) =
        timers s @ [\<lparr> tm_delay = 1000, tm_isLive = es_isLive es \<rparr>]
    \<and> (\<forall>(s' :: state) i. i < length (timers s') \<longrightarrow>
          step e s' (TimerFired i) =
            (if (\<exists>es'. eventSource s' = Some es' \<and> es_readyState es' = CLOSED)
                \<and> tm_isLive (timers s' ! i)
             then connect True (s'\<lparr> timers := drop_nth i (timers s') \<rparr>)
             else s'\<lparr> timers := drop_nth i (timers s') \<rparr>))
    \<and> (\<forall>s' :: state. status (connect True s') = ''Connecting...''
          \<and> eventSource (connect True s') = Some \<lparr> es_readyState = CONNECTING, es_isLive = True \<rparr>)
    \<and> (\<forall>evs. liveClosures (run e mounted evs))
    \<and> (isLive s \<longrightarrow>
         status (step e (step e s (Errored fatal)) (SetLive False)) = ''Paused''
         \<and> (\<forall>evs i. SetLive True \<notin> set evs \<and>
               i < length (timers (run e (step e (step e s (Errored fatal)) (SetLive False)) evs)) \<longrightarrow>
             eventSource (run e (step e (step e s (Errored fatal)) (SetLive False)) evs) = None
             \<and> step e (run e (step e (step e s (Errored fatal)) (SetLive False)) evs) (TimerFired i) =
                 (run e (step e (step e s (Errored fatal)) (SetLive False)) evs)
                   \<lparr> timers := drop_nth i
                       (timers (run e (step e (step e s (Errored fatal)) (SetLive False)) evs)) \<rparr>))"
proof -
  note err = step_error [OF assms, of e fatal]
  have 1: "status (step e s (Errored fatal)) = ''Connection error - reconnecting...''"
    "timers (step e s (Errored fatal)) = timers s @ [\<lparr> tm_delay = 1000, tm_isLive = es_isLive es \<rparr>]"
    by (simp_all add: err)
  have 2: "\<forall>(s' :: state) i. i < length (timers s') \<longrightarrow>
          step e s' (TimerFired i) =
            (if (\<exists>es'. eventSource s' = Some es' \<and> es_readyState es' = CLOSED)
                \<and> tm_isLive (timers s' ! i)
             then connect True (s'\<lparr> timers := drop_nth i (timers s') \<rparr>)
             else s'\<lparr> timers := drop_nth i (timers s') \<rparr>)"
    by (intro allI impI step_timer)
  have 3: "\<forall>s' :: state. status (connect True s') = ''Connecting...''
          \<and> eventSource (connect True s') = Some \<lparr> es_readyState = CONNECTING, es_isLive = True \<rparr>"
    by (simp add: connect_def Let_def split: option.split)
  have 4: "\<forall>evs. liveClosures (run e mounted evs)"
    by (simp add: liveClosures_run)
  have 5: "status (step e (step e s (Errored fatal)) (SetLive False)) = ''Paused''
         \<and> (\<forall>evs i. SetLive True \<notin> set evs \<and>
               i < length (timers (run e (step e (step e s (Errored fatal)) (SetLive False)) evs)) \<longrightarrow>
             eventSource (run e (step e (step e s (Errored fatal)) (SetLive False)) evs) = None
             \<and> step e (run e (step e (step e s (Errored fatal)) (SetLive False)) evs) (TimerFired i) =
                 (run e (step e (step e s (Errored fatal)) (SetLive False)) evs)
                   \<lparr> timers := drop_nth i
                       (timers (run e (step e (step e s (Errored fatal)) (SetLive False)) evs)) \<rparr>)"
    if live: "isLive s"
  proof -
    let ?s1 = "step e (step e s (Errored fatal)) (SetLive False)"
    from live have "isLive (step e s (Errored fatal))"
      by (simp add: err)
    from pause_clears [OF this, of e]
    have p: "eventSource ?s1 = None" "\<not> isLive ?s1" "status ?s1 = ''Paused''"
      by simp_all
    have "eventSource (run e ?s1 evs) = None
          \<and> step e (run e ?s1 evs) (TimerFired i) =
              (run e ?s1 evs)\<lparr> timers := drop_nth i (timers (run e ?s1 evs)) \<rparr>"
      if "SetLive True \<notin> set evs \<and> i < length (timers (run e ?s1 evs))" for evs i
    proof -
      from that paused_run [OF p(1,2), of evs e] have n: "eventSource (run e ?s1 evs) = None"
        by simp
      with that step_timer [of i "run e ?s1 evs" e] show ?thesis
        by simp
    qed
    with p(3) show ?thesis
      by blast
  qed
  from 1 2 3 4 5 show ?thesis
    by blast
qed

theorem reconnect_after_error_witness:
  "eventSource (run sampleEnv mounted [Opened]) = Some \<lparr> es_readyState = OPEN, es_isLive = True \<rparr>
   \<and> status (step sampleEnv (run sampleEnv mounted [Opened]) (Errored True)) =
       ''Connection error - reconnecting...''
   \<and> timers (step sampleEnv (run sampleEnv mounted [Opened]) (Errored True)) =
       [\<lparr> tm_delay = 1000, tm_isLive = True \<rparr>]
   \<and> status (step sampleEnv (step sampleEnv (run sampleEnv mounted [Opened]) (Errored True))
       (SetLive False)) = ''Paused''
   \<and> step sampleEnv (run sampleEnv
         (step sampleEnv (step sampleEnv (run sampleEnv mounted [Opened]) (Errored True))
            (SetLive False)) []) (TimerFired 0) =
       (run sampleEnv
         (step sampleEnv (step sampleEnv (run sampleEnv mounted [Opened]) (Errored True))
            (SetLive False)) [])\<lparr> timers := [] \<rparr>"
proof -
  let ?s = "run sampleEnv mounted [Opened]"
  let ?es = "\<lparr> es_readyState = OPEN, es_isLive = True \<rparr>"
  let ?s1 = "step sampleEnv (step sampleEnv ?s (Errored True)) (SetLive False)"
  have h: "eventSource ?s = Some ?es"
    by (simp add: run_def step_def onopen_def mounted_eq)
  have l: "isLive ?s"
    by (simp add: run_def step_def onopen_def mounted_eq)
  note t = reconnect_after_error [OF h, of sampleEnv True]
  from t have a: "status (step sampleEnv ?s (Errored True)) = ''Connection error - reconnecting...''"
    "timers (step sampleEnv ?s (Errored True)) = timers ?s @ [\<lparr> tm_delay = 1000, tm_isLive = es_isLive ?es \<rparr>]"
    by blast+
  from t l have b: "status ?s1 = ''Paused''"
    by blast
  have tm: "timers (run sampleEnv ?s1 []) = [\<lparr> tm_delay = 1000, tm_isLive = True \<rparr>]"
    by (simp add: run_def step_def onopen_def onerror_def setLive_def effectBody_def
        effectCleanup_def mounted_eq)
  then have i: "SetLive True \<notin> set [] \<and> 0 < length (timers (run sampleEnv ?s1 []))"
    by simp
  from t l have "\<forall>evs i. SetLive True \<notin> set evs \<and> i < length (timers (run sampleEnv ?s1 evs)) \<longrightarrow>
      step sampleEnv (run sampleEnv ?s1 evs) (TimerFired i) =
        (run sampleEnv ?s1 evs)\<lparr> timers := drop_nth i (timers (run sampleEnv ?s1 evs)) \<rparr>"
    by blast
  with i have c: "step sampleEnv (run sampleEnv ?s1 []) (TimerFired 0) =
        (run sampleEnv ?s1 [])\<lparr> timers := drop_nth 0 (timers (run sampleEnv ?s1 [])) \<rparr>"
    by blast
  have ts: "timers ?s = []"
    by (simp add: run_def step_def onopen_def mounted_eq)
  from h a b c show ?thesis
    by (simp add: tm ts drop_nth_def)
qed

end
